theory Spec2Isabelle
  imports
    Complex_Main
    "HOL-Library.AList"
    "HOL-Library.Log_Nat"
    "HOL-Library.List_Lexorder"
    "HOL-Library.Multiset"
begin

section \<open>Shop monitor: the snapshot diff of \<open>main.py\<close>\<close>

text \<open>
  The theory follows \<open>src/main.py\<close>: the \<open>Point\<close> and \<open>ChangeReport\<close> dataclasses,
  \<open>normalize_name\<close>, \<open>analyze_changes\<close>, the snapshot store (\<open>load_old_shops\<close>,
  \<open>save_new_shops\<close>), the report writers and the two ingestion runs.

  Four things that the program uses and does not contain are parameters of the model:
  the lower-casing of Unicode (\<open>str.lower\<close>), the order in which Python iterates a set,
  the answers of the operating system to \<open>os.makedirs\<close> and to a write, and the clock.
  The messages that the program prints are left out: standard output is taken to accept
  them.
\<close>

subsection \<open>Strings\<close>

text \<open>
  A Python \<open>str\<close> is the list of its code points. \<open>str ''...''\<close> is a string written in
  the program, all of whose characters are ASCII. Paths stay lists of 8-bit characters,
  the bytes that the operating system sees.
\<close>

type_synonym codepoint = nat

type_synonym py_str = "codepoint list"

definition str :: "string \<Rightarrow> py_str" where
  "str cs = map of_char cs"

subsection \<open>Outcomes of a call\<close>

datatype py_error =
    KeyError py_str
  | ZeroDivisionError
  | AttributeError
  | TypeError
  | FileExistsError
  | NotADirectoryError
  | IsADirectoryError
  | FileNotFoundError
  | PermissionError
  | OSError
  | UnicodeEncodeError
  | JSONDecodeError
  | RequestException

text \<open>
  A call returns, or raises, or goes on in Python with a value whose type is not the one
  the dataclass declares (\<open>Point\<close> checks nothing at run time). The typed records below
  cannot hold such a value: the model stops there with \<open>Untyped\<close> and says nothing
  about what Python does next.
\<close>

datatype 'a outcome = Return 'a | Raise py_error | Untyped

definition and_then :: "'a outcome \<Rightarrow> ('a \<Rightarrow> 'b outcome) \<Rightarrow> 'b outcome" where
  "and_then m f = (case m of Return x \<Rightarrow> f x | Raise e \<Rightarrow> Raise e | Untyped \<Rightarrow> Untyped)"

subsection \<open>Data model\<close>

text \<open>
  The dataclass \<open>Point\<close> (lines 9-16), its fields with the declared types. The field
  \<open>id\<close> is \<open>id'\<close> here.
\<close>

record Point =
  id' :: py_str
  name :: py_str
  parsed_categories :: "py_str list"
  assigned_categories :: "py_str list"
  parsing_date :: py_str
  status :: py_str

text \<open>A Python \<open>float\<close> that is finite: the rational number it denotes.\<close>

type_synonym py_float = rat

text \<open>The values of the \<open>changes\<close> dict of one changed shop (lines 96, 99, 109-114).\<close>

datatype change =
    OldNew py_str py_str
  | Categories (added: "py_str list") (removed: "py_str list") (total_old: int) (total_new: int)

text \<open>
  One element of \<open>changed_shops\<close> (lines 117-122). \<open>asdict\<close> copies a \<open>Point\<close> field by
  field into a dict; the copy is kept as the \<open>Point\<close> it copies. The keys \<open>'name'\<close>,
  \<open>'old_shop'\<close>, \<open>'new_shop'\<close> and \<open>'changes'\<close> are the four fields; \<open>changes\<close> is the
  dict in insertion order, its keys (\<open>'id'\<close>, \<open>'status'\<close>, \<open>'categories'\<close>) as the program
  writes them.
\<close>

record changed_shop =
  entry_name :: py_str
  entry_old_shop :: Point
  entry_new_shop :: Point
  entry_changes :: "(string \<times> change) list"

text \<open>
  The \<open>stats\<close> dict (lines 124-132), one field for each key; the keys \<open>'total_before'\<close>
  and \<open>'total_after'\<close> are \<open>stats_total_before\<close> and \<open>stats_total_after\<close>.
\<close>

record stats_dict =
  stats_total_before :: int
  stats_total_after :: int
  new_count :: int
  disappeared_count :: int
  changed_count :: int
  unchanged_count :: int
  change_percentage :: py_float

text \<open>The dataclass \<open>ChangeReport\<close> (lines 18-26).\<close>

record ChangeReport =
  date :: py_str
  total_before :: int
  total_after :: int
  new_shops :: "Point list"
  disappeared_shops :: "Point list"
  changed_shops :: "changed_shop list"
  stats :: stats_dict

subsection \<open>\<open>str.strip\<close> and \<open>str.lower\<close>\<close>

text \<open>
  \<open>str.strip()\<close> removes the leading and the trailing characters for which
  \<open>str.isspace\<close> holds. These are 29 code points: U+0009 to U+000D, U+001C to U+0020,
  U+0085, U+00A0, U+1680, U+2000 to U+200A, U+2028, U+2029, U+202F, U+205F and U+3000.
\<close>

definition py_isspace :: "codepoint \<Rightarrow> bool" where
  "py_isspace c \<longleftrightarrow>
     (0x09 \<le> c \<and> c \<le> 0x0D) \<or> (0x1C \<le> c \<and> c \<le> 0x20) \<or> c = 0x85 \<or> c = 0xA0 \<or>
     c = 0x1680 \<or> (0x2000 \<le> c \<and> c \<le> 0x200A) \<or> c = 0x2028 \<or> c = 0x2029 \<or>
     c = 0x202F \<or> c = 0x205F \<or> c = 0x3000"

definition py_strip :: "py_str \<Rightarrow> py_str" where
  "py_strip s = rev (dropWhile py_isspace (rev (dropWhile py_isspace s)))"

text \<open>
  \<open>str.lower()\<close> follows the case mappings of Unicode: more than a thousand letters, one
  of them going to two code points (U+0130), one depending on its place in the word (the
  Greek capital sigma). It is a parameter of the model, a function from strings to
  strings, named \<open>lower\<close> throughout. What the example of the specification needs of
  it is its value on ASCII text, where it changes the letters A to Z and nothing else.
\<close>

type_synonym lowering = "py_str \<Rightarrow> py_str"

definition ascii_lower :: "codepoint \<Rightarrow> codepoint" where
  "ascii_lower c = (if 0x41 \<le> c \<and> c \<le> 0x5A then c + 0x20 else c)"

definition lower_on_ascii :: "lowering \<Rightarrow> bool" where
  "lower_on_ascii lower \<longleftrightarrow> (\<forall>s. list_all (\<lambda>c. c < 0x80) s \<longrightarrow> lower s = map ascii_lower s)"

text \<open>Line 71: \<open>return name.strip().lower()\<close>.\<close>

definition normalize_name :: "lowering \<Rightarrow> py_str \<Rightarrow> py_str" where
  "normalize_name lower nm = lower (py_strip nm)"

subsection \<open>Dicts and sets\<close>

text \<open>
  A dict is an association list in insertion order. Storing under a key that is already
  there replaces the value in place, storing under a new key appends: this is
  \<open>AList.update\<close>. Subscripting raises \<open>KeyError\<close> on a key that is not there.
\<close>

definition getitem :: "(py_str \<times> 'v) list \<Rightarrow> py_str \<Rightarrow> 'v outcome" where
  "getitem d k = (case map_of d k of None \<Rightarrow> Raise (KeyError k) | Some v \<Rightarrow> Return v)"

definition keys :: "(py_str \<times> 'v) list \<Rightarrow> py_str set" where
  "keys d = set (map fst d)"

text \<open>
  Lines 75-76: \<open>{normalize_name(shop.name): shop for shop in shops}\<close>, one store for each
  shop, in the order of the list.
\<close>

definition dict_by_name :: "lowering \<Rightarrow> Point list \<Rightarrow> (py_str \<times> Point) list" where
  "dict_by_name lower shops =
     foldl (\<lambda>d shop. AList.update (normalize_name lower (name shop)) shop d) [] shops"

text \<open>
  Python iterates a set in the order of its hash table. That order follows the hashes of
  the elements, which for strings are salted anew for each interpreter process, and the
  way the set was built: two sets with the same elements, built from two lists, can be
  iterated in two orders in one process. Every set that \<open>analyze_changes\<close> iterates is
  the difference or the intersection of two sets, each of them built from a list (the
  keys of a dict in insertion order, or a list of categories). The order is therefore a
  parameter of the model, named \<open>it\<close> throughout: a function of the place in the
  program, of the two lists that the operands were built from and of the set, which
  lists the elements of the set, each once. It is one function for one process.
\<close>

datatype site = Appeared | Disappeared | Remaining | Added | Removed

type_synonym set_order = "site \<Rightarrow> py_str list \<Rightarrow> py_str list \<Rightarrow> py_str set \<Rightarrow> py_str list"

definition set_order_ok :: "set_order \<Rightarrow> bool" where
  "set_order_ok it \<longleftrightarrow>
     (\<forall>place xs ys S. finite S \<longrightarrow> distinct (it place xs ys S) \<and> set (it place xs ys S) = S)"

text \<open>Lines 85-86: \<open>[d[name] for name in names]\<close>.\<close>

fun lookup_all :: "(py_str \<times> 'v) list \<Rightarrow> py_str list \<Rightarrow> 'v list outcome" where
  "lookup_all d [] = Return []"
| "lookup_all d (k # ks) =
     and_then (getitem d k) (\<lambda>v. and_then (lookup_all d ks) (\<lambda>vs. Return (v # vs)))"

subsection \<open>Floats\<close>

text \<open>
  A binary64 operation returns the exact result rounded to the nearest number with a
  significand of 53 bits, a tie going to the even significand. The model rounds in this
  way and leaves the exponent unbounded: overflow to infinity and subnormal numbers are
  outside it. The quotients and products of \<open>analyze_changes\<close> are between \<open>2\<^sup>-\<^sup>6\<^sup>4\<close> and
  \<open>2\<^sup>7\<^sup>1\<close> in size for lists shorter than \<open>2\<^sup>6\<^sup>4\<close>, far inside the normal range.
\<close>

definition round_half_even :: "rat \<Rightarrow> int" where
  "round_half_even x =
     (let n = \<lfloor>x\<rfloor>; d = x - of_int n
      in if d < 1 / 2 then n else if 1 / 2 < d then n + 1 else if even n then n else n + 1)"

definition pow2 :: "int \<Rightarrow> rat" where
  "pow2 e = (if 0 \<le> e then 2 ^ nat e else 1 / 2 ^ nat (- e))"

text \<open>The \<open>e\<close> with \<open>2\<^sup>e \<le> |x| < 2\<^sup>e\<^sup>+\<^sup>1\<close>, for \<open>x\<close> other than 0.\<close>

definition binary_exponent :: "rat \<Rightarrow> int" where
  "binary_exponent x =
     (let (p, q) = quotient_of \<bar>x\<bar>;
          k = bitlen p - bitlen q
      in if pow2 k \<le> \<bar>x\<bar> then k else k - 1)"

definition to_float :: "rat \<Rightarrow> py_float" where
  "to_float x =
     (if x = 0 then 0
      else let e = binary_exponent x - 52
           in of_int (round_half_even (x / pow2 e)) * pow2 e)"

text \<open>\<open>a / b\<close> on two \<open>int\<close>s: the quotient, correctly rounded; \<open>ZeroDivisionError\<close> on 0.\<close>

definition int_truediv :: "int \<Rightarrow> int \<Rightarrow> py_float outcome" where
  "int_truediv a b =
     (if b = 0 then Raise ZeroDivisionError else Return (to_float (of_int a / of_int b)))"

text \<open>\<open>x * n\<close> on a \<open>float\<close> and an \<open>int\<close>: the \<open>int\<close> is converted, the product rounded.\<close>

definition float_mul_int :: "py_float \<Rightarrow> int \<Rightarrow> py_float" where
  "float_mul_int x n = to_float (x * to_float (of_int n))"

text \<open>
  \<open>round(x, 2)\<close> on a \<open>float\<close>: the decimal with two places nearest to the exact value of
  \<open>x\<close> (a tie going to the even last digit), then the float nearest to that decimal.
\<close>

definition py_round2 :: "py_float \<Rightarrow> py_float" where
  "py_round2 x = to_float (of_int (round_half_even (x * 100)) / 100)"

subsection \<open>The diff engine: \<open>analyze_changes\<close>\<close>

text \<open>
  Lines 93-114, the body of the loop for one pair of shops: the \<open>changes\<close> dict.
  \<open>list(s)\<close> on a set lists it in iteration order; \<open>old_cats\<close> and \<open>new_cats\<close> are built
  from the two lists of categories.
\<close>

definition shop_changes :: "set_order \<Rightarrow> Point \<Rightarrow> Point \<Rightarrow> (string \<times> change) list" where
  "shop_changes it old_shop new_shop =
     (let changes = [];
          changes = (if id' old_shop \<noteq> id' new_shop
                     then AList.update ''id'' (OldNew (id' old_shop) (id' new_shop)) changes
                     else changes);
          changes = (if status old_shop \<noteq> status new_shop
                     then AList.update ''status''
                            (OldNew (status old_shop) (status new_shop)) changes
                     else changes);
          old_cats = set (parsed_categories old_shop);
          new_cats = set (parsed_categories new_shop)
      in if old_cats \<noteq> new_cats
         then (let added = it Added (parsed_categories new_shop) (parsed_categories old_shop)
                             (new_cats - old_cats);
                   removed = it Removed (parsed_categories old_shop)
                               (parsed_categories new_shop) (old_cats - new_cats)
               in if added \<noteq> [] \<or> removed \<noteq> []
                  then AList.update ''categories''
                         (Categories added removed (int (card old_cats)) (int (card new_cats)))
                         changes
                  else changes)
         else changes)"

text \<open>
  Lines 116-122: the element that the loop appends for one pair of shops, if \<open>changes\<close>
  is not empty.
\<close>

definition changed_entry :: "set_order \<Rightarrow> Point \<Rightarrow> Point \<Rightarrow> changed_shop option" where
  "changed_entry it old_shop new_shop =
     (let changes = shop_changes it old_shop new_shop
      in if changes \<noteq> []
         then Some \<lparr>entry_name = name old_shop, entry_old_shop = old_shop,
                     entry_new_shop = new_shop, entry_changes = changes\<rparr>
         else None)"

text \<open>
  Lines 88-122, the loop over \<open>remaining_names\<close>; the last argument is
  \<open>changed_shops_list\<close> as built so far.
\<close>

fun changed_loop ::
  "set_order \<Rightarrow> (py_str \<times> Point) list \<Rightarrow> (py_str \<times> Point) list \<Rightarrow> py_str list \<Rightarrow>
   changed_shop list \<Rightarrow> changed_shop list outcome" where
  "changed_loop it old_dict new_dict [] changed_shops_list = Return changed_shops_list"
| "changed_loop it old_dict new_dict (nm # names) changed_shops_list =
     and_then (getitem old_dict nm) (\<lambda>old_shop.
     and_then (getitem new_dict nm) (\<lambda>new_shop.
       changed_loop it old_dict new_dict names
         (case changed_entry it old_shop new_shop of
            Some entry \<Rightarrow> changed_shops_list @ [entry]
          | None \<Rightarrow> changed_shops_list)))"

text \<open>
  Lines 74-144. \<open>now\<close> is \<open>datetime.now().strftime("%Y-%m-%d %H:%M:%S")\<close> as read on
  line 135. \<open>old_names\<close> and \<open>new_names\<close> are built from the keys of the two dicts.
\<close>

definition analyze_changes ::
  "lowering \<Rightarrow> set_order \<Rightarrow> py_str \<Rightarrow> Point list \<Rightarrow> Point list \<Rightarrow> ChangeReport outcome" where
  "analyze_changes lower it now old_shops new_shops_in =
     (let old_dict = dict_by_name lower old_shops;
          new_dict = dict_by_name lower new_shops_in;
          old_names = keys old_dict;
          new_names = keys new_dict;
          appeared_names = new_names - old_names;
          disappeared_names = old_names - new_names;
          remaining_names = old_names \<inter> new_names
      in and_then (lookup_all new_dict
                     (it Appeared (map fst new_dict) (map fst old_dict) appeared_names))
           (\<lambda>new_shops_list.
         and_then (lookup_all old_dict
                     (it Disappeared (map fst old_dict) (map fst new_dict) disappeared_names))
           (\<lambda>disappeared_shops_list.
         and_then (changed_loop it old_dict new_dict
                     (it Remaining (map fst old_dict) (map fst new_dict) remaining_names) [])
           (\<lambda>changed_shops_list.
         and_then (int_truediv (int (length new_shops_in) - int (length old_shops))
                     (max (int (length old_shops)) 1)) (\<lambda>quotient.
           Return
             \<lparr>date = now,
              total_before = int (length old_shops),
              total_after = int (length new_shops_in),
              new_shops = new_shops_list,
              disappeared_shops = disappeared_shops_list,
              changed_shops = changed_shops_list,
              stats =
                \<lparr>stats_total_before = int (length old_shops),
                 stats_total_after = int (length new_shops_in),
                 new_count = int (length new_shops_list),
                 disappeared_count = int (length disappeared_shops_list),
                 changed_count = int (length changed_shops_list),
                 unchanged_count =
                   int (card remaining_names) - int (length changed_shops_list),
                 change_percentage = py_round2 (float_mul_int quotient 100)\<rparr>\<rparr>)))))"

text \<open>The normalized names of a collection: the keys of its lookup dict.\<close>

definition normalized_names :: "lowering \<Rightarrow> Point list \<Rightarrow> py_str set" where
  "normalized_names lower shops = normalize_name lower ` name ` set shops"

text \<open>The Points of a collection that are stored under the key \<open>k\<close>, in list order.\<close>

definition with_key :: "lowering \<Rightarrow> py_str \<Rightarrow> Point list \<Rightarrow> Point list" where
  "with_key lower k shops = filter (\<lambda>shop. normalize_name lower (name shop) = k) shops"

text \<open>
  The three lists of keys in the order in which \<open>analyze_changes\<close> iterates them
  (lines 85, 86 and 89).
\<close>

definition appeared_keys :: "lowering \<Rightarrow> set_order \<Rightarrow> Point list \<Rightarrow> Point list \<Rightarrow> py_str list" where
  "appeared_keys lower it old_shops new_shops_in =
     it Appeared (map fst (dict_by_name lower new_shops_in))
       (map fst (dict_by_name lower old_shops))
       (normalized_names lower new_shops_in - normalized_names lower old_shops)"

definition disappeared_keys ::
  "lowering \<Rightarrow> set_order \<Rightarrow> Point list \<Rightarrow> Point list \<Rightarrow> py_str list" where
  "disappeared_keys lower it old_shops new_shops_in =
     it Disappeared (map fst (dict_by_name lower old_shops))
       (map fst (dict_by_name lower new_shops_in))
       (normalized_names lower old_shops - normalized_names lower new_shops_in)"

definition remaining_keys ::
  "lowering \<Rightarrow> set_order \<Rightarrow> Point list \<Rightarrow> Point list \<Rightarrow> py_str list" where
  "remaining_keys lower it old_shops new_shops_in =
     it Remaining (map fst (dict_by_name lower old_shops))
       (map fst (dict_by_name lower new_shops_in))
       (normalized_names lower old_shops \<inter> normalized_names lower new_shops_in)"

text \<open>
  A change and a changed entry up to the order of the \<open>added\<close> and \<open>removed\<close> lists,
  which \<open>list(s)\<close> takes from the iteration order of a set.
\<close>

fun unordered_change ::
  "change \<Rightarrow> (py_str \<times> py_str) + (py_str set \<times> py_str set \<times> int \<times> int)" where
  "unordered_change (OldNew a b) = Inl (a, b)"
| "unordered_change (Categories a r n_old n_new) = Inr (set a, set r, n_old, n_new)"

definition unordered_entry ::
  "changed_shop \<Rightarrow>
   py_str \<times> Point \<times> Point \<times>
   (string \<times> ((py_str \<times> py_str) + (py_str set \<times> py_str set \<times> int \<times> int))) list" where
  "unordered_entry e =
     (entry_name e, entry_old_shop e, entry_new_shop e,
      map (\<lambda>kv. (fst kv, unordered_change (snd kv))) (entry_changes e))"

subsection \<open>JSON values and files\<close>

text \<open>
  What \<open>json.load\<close> returns and \<open>json.dump\<close> takes. \<open>JObj\<close> is a dict in insertion
  order, its keys distinct. \<open>json.dump\<close> followed by \<open>json.load\<close> gives the value back
  for values built from these constructors; the text in between is not modelled, a file
  holds the value.
\<close>

datatype json =
    JNull
  | JBool bool
  | JInt int
  | JFloat py_float
  | JStr py_str
  | JArr "json list"
  | JObj "(py_str \<times> json) list"

text \<open>
  A file is written in UTF-8 (\<open>encoding='utf-8'\<close>), and \<open>json.dump\<close> is called with
  \<open>ensure_ascii=False\<close>: a string goes to the file as it is. A code point can be encoded
  unless it is a surrogate (U+D800 to U+DFFF); a \<open>str\<close> has no code point above
  U+10FFFF.
\<close>

definition encodable :: "py_str \<Rightarrow> bool" where
  "encodable s \<longleftrightarrow> list_all (\<lambda>c. c < 0xD800 \<or> (0xDFFF < c \<and> c < 0x110000)) s"

text \<open>The strings of a JSON value, keys and values, in the order of the text.\<close>

primrec json_strings :: "json \<Rightarrow> py_str list" where
  "json_strings JNull = []"
| "json_strings (JBool b) = []"
| "json_strings (JInt n) = []"
| "json_strings (JFloat x) = []"
| "json_strings (JStr s) = [s]"
| "json_strings (JArr js) = concat (map json_strings js)"
| "json_strings (JObj kvs) =
     concat (map (\<lambda>kv. fst kv # snd kv) (map (map_prod id json_strings) kvs))"

text \<open>The keyword arguments of \<open>template.render\<close> (lines 421-433).\<close>

record template_data =
  tpl_report_date :: py_str
  tpl_total_before :: int
  tpl_total_after :: int
  tpl_new_count :: int
  tpl_disappeared_count :: int
  tpl_changed_count :: int
  tpl_change_percentage :: py_float
  tpl_change_color :: py_str
  tpl_new_shops :: "Point list"
  tpl_disappeared_shops :: "Point list"
  tpl_changed_shops :: "changed_shop list"

text \<open>
  The strings that the template prints: for a new or a disappeared shop its name, id,
  status, parsed categories and parsing date (lines 257-271 and 298-312); for a changed
  shop its name, the id of the old shop and the strings of its changes (lines 339-387).
\<close>

definition shown_of_point :: "Point \<Rightarrow> py_str list" where
  "shown_of_point shop =
     [name shop, id' shop, status shop] @ parsed_categories shop @ [parsing_date shop]"

fun shown_of_change :: "change \<Rightarrow> py_str list" where
  "shown_of_change (OldNew a b) = [a, b]"
| "shown_of_change (Categories a r n_old n_new) = a @ r"

definition shown_of_entry :: "changed_shop \<Rightarrow> py_str list" where
  "shown_of_entry e =
     [entry_name e, id' (entry_old_shop e)] @
     concat (map (\<lambda>kv. shown_of_change (snd kv)) (entry_changes e))"

definition template_strings :: "template_data \<Rightarrow> py_str list" where
  "template_strings td =
     [tpl_report_date td] @
     concat (map shown_of_point (tpl_new_shops td)) @
     concat (map shown_of_point (tpl_disappeared_shops td)) @
     concat (map shown_of_entry (tpl_changed_shops td))"

text \<open>
  A file holds JSON text, or the document rendered from the template (kept as the data
  it was rendered from), or something \<open>json.load\<close> rejects: any other text, also the
  incomplete text that a failed write leaves behind.
\<close>

datatype content = Json json | Rendered template_data | NotJson

definition content_encodable :: "content \<Rightarrow> bool" where
  "content_encodable c =
     (case c of
        Json j \<Rightarrow> list_all encodable (json_strings j)
      | Rendered td \<Rightarrow> list_all encodable (template_strings td)
      | NotJson \<Rightarrow> True)"

datatype node = File content | Dir

text \<open>
  What the program can read: a map from the path as the program writes it to what is
  there.
\<close>

type_synonym fs = "string \<Rightarrow> node option"

definition os_path_exists :: "fs \<Rightarrow> string \<Rightarrow> bool" where
  "os_path_exists files p \<longleftrightarrow> files p \<noteq> None"

text \<open>
  \<open>posixpath.dirname\<close>: the part up to the last slash, with the trailing slashes removed
  unless it consists of slashes only.
\<close>

definition os_path_dirname :: "string \<Rightarrow> string" where
  "os_path_dirname p =
     (let head = rev (dropWhile (\<lambda>c. c \<noteq> CHR ''/'') (rev p))
      in if head \<noteq> [] \<and> \<not> list_all (\<lambda>c. c = CHR ''/'') head
         then rev (dropWhile (\<lambda>c. c = CHR ''/'') (rev head))
         else head)"

text \<open>
  Whether the operating system creates a directory or takes a write is not decided by
  the program, and not by the map above: it depends on the whole directory tree (a
  regular file among the ancestors of the path, a path that is empty or ends in a
  slash), on permissions and on the device. The answers of the operating system are
  therefore a parameter of the model, named \<open>os\<close> throughout.

  \<open>on_makedirs os files d\<close> is the exception with which \<open>os.makedirs(d, exist_ok=True)\<close>
  fails, if it fails. \<open>on_write os files p\<close> is what happens when the program opens \<open>p\<close>
  for writing and writes a text: \<open>Written\<close>, the text is stored and is what a later
  read of \<open>p\<close> gives; \<open>Refused e\<close>, \<open>open\<close> raises \<open>e\<close> and nothing is changed;
  \<open>Broken e\<close>, the file is opened, and so emptied, and the writing or the closing
  raises \<open>e\<close>, leaving an incomplete text.
\<close>

datatype write_answer = Written | Refused py_error | Broken py_error

record os_answers =
  on_makedirs :: "fs \<Rightarrow> string \<Rightarrow> py_error option"
  on_write :: "fs \<Rightarrow> string \<Rightarrow> write_answer"

definition os_makedirs :: "os_answers \<Rightarrow> fs \<Rightarrow> string \<Rightarrow> fs outcome" where
  "os_makedirs os files d =
     (case on_makedirs os files d of
        Some e \<Rightarrow> Raise e
      | None \<Rightarrow> Return (files(d \<mapsto> Dir)))"

text \<open>
  \<open>with open(p, 'w', encoding='utf-8') as f\<close> followed by the writing of one text:
  the file system after it and how it ended. A text with a surrogate in it fails in the
  encoder after the file was opened, with what was written before it left in the file.
\<close>

definition write_file :: "os_answers \<Rightarrow> fs \<Rightarrow> string \<Rightarrow> content \<Rightarrow> fs \<times> unit outcome" where
  "write_file os files p c =
     (case on_write os files p of
        Refused e \<Rightarrow> (files, Raise e)
      | Broken e \<Rightarrow> (files(p \<mapsto> File NotJson), Raise e)
      | Written \<Rightarrow>
          if content_encodable c then (files(p \<mapsto> File c), Return ())
          else (files(p \<mapsto> File NotJson), Raise UnicodeEncodeError))"

text \<open>\<open>with open(p, 'r') as f: data = json.load(f)\<close>.\<close>

definition read_json :: "fs \<Rightarrow> string \<Rightarrow> json outcome" where
  "read_json files p =
     (case files p of
        None \<Rightarrow> Raise FileNotFoundError
      | Some Dir \<Rightarrow> Raise IsADirectoryError
      | Some (File (Json j)) \<Rightarrow> Return j
      | Some (File _) \<Rightarrow> Raise JSONDecodeError)"

text \<open>
  \<open>for item in data\<close>: a list gives its elements, a dict its keys, a string its
  characters; nothing else is iterable.
\<close>

fun iter_json :: "json \<Rightarrow> json list outcome" where
  "iter_json (JArr xs) = Return xs"
| "iter_json (JObj kvs) = Return (map (\<lambda>kv. JStr (fst kv)) kvs)"
| "iter_json (JStr s) = Return (map (\<lambda>c. JStr [c]) s)"
| "iter_json _ = Raise TypeError"

text \<open>\<open>item.get(k, default)\<close>: only a dict has \<open>get\<close>.\<close>

fun dict_get :: "json \<Rightarrow> py_str \<Rightarrow> json \<Rightarrow> json outcome" where
  "dict_get (JObj kvs) k dflt = Return (case map_of kvs k of None \<Rightarrow> dflt | Some v \<Rightarrow> v)"
| "dict_get _ k dflt = Raise AttributeError"

text \<open>\<open>data[k]\<close> on a JSON value with a string \<open>k\<close>: only a dict takes it.\<close>

fun json_getitem :: "json \<Rightarrow> py_str \<Rightarrow> json outcome" where
  "json_getitem (JObj kvs) k = getitem kvs k"
| "json_getitem _ k = Raise TypeError"

text \<open>
  Storing a value in a field declared \<open>str\<close> or \<open>List[str]\<close>. Python stores any value;
  the model goes on only with a value of the declared type.
\<close>

fun as_str :: "json \<Rightarrow> py_str outcome" where
  "as_str (JStr s) = Return s"
| "as_str _ = Untyped"

fun as_strs :: "json list \<Rightarrow> py_str list outcome" where
  "as_strs [] = Return []"
| "as_strs (j # js) = and_then (as_str j) (\<lambda>s. and_then (as_strs js) (\<lambda>ss. Return (s # ss)))"

fun as_str_list :: "json \<Rightarrow> py_str list outcome" where
  "as_str_list (JArr js) = as_strs js"
| "as_str_list _ = Untyped"

text \<open>\<open>asdict(shop)\<close> as the JSON object that \<open>json.dump\<close> writes for it.\<close>

definition asdict_point :: "Point \<Rightarrow> json" where
  "asdict_point shop =
     JObj [(str ''id'', JStr (id' shop)),
           (str ''name'', JStr (name shop)),
           (str ''parsed_categories'', JArr (map JStr (parsed_categories shop))),
           (str ''assigned_categories'', JArr (map JStr (assigned_categories shop))),
           (str ''parsing_date'', JStr (parsing_date shop)),
           (str ''status'', JStr (status shop))]"

text \<open>A \<open>Point\<close> all of whose strings can be encoded.\<close>

definition point_encodable :: "Point \<Rightarrow> bool" where
  "point_encodable shop \<longleftrightarrow>
     encodable (id' shop) \<and> encodable (name shop) \<and>
     list_all encodable (parsed_categories shop) \<and>
     list_all encodable (assigned_categories shop) \<and>
     encodable (parsing_date shop) \<and> encodable (status shop)"

subsection \<open>The snapshot store\<close>

text \<open>Lines 42-49: one \<open>Point\<close> from one stored item.\<close>

definition point_of_item :: "json \<Rightarrow> Point outcome" where
  "point_of_item item =
     and_then (dict_get item (str ''id'') (JStr (str ''''))) (\<lambda>v_id.
     and_then (dict_get item (str ''name'') (JStr (str ''''))) (\<lambda>v_name.
     and_then (dict_get item (str ''parsed_categories'') (JArr [])) (\<lambda>v_parsed.
     and_then (dict_get item (str ''assigned_categories'') (JArr [])) (\<lambda>v_assigned.
     and_then (dict_get item (str ''parsing_date'') (JStr (str ''''))) (\<lambda>v_date.
     and_then (dict_get item (str ''status'') (JStr (str ''unknown''))) (\<lambda>v_status.
     and_then (as_str v_id) (\<lambda>f_id.
     and_then (as_str v_name) (\<lambda>f_name.
     and_then (as_str_list v_parsed) (\<lambda>f_parsed.
     and_then (as_str_list v_assigned) (\<lambda>f_assigned.
     and_then (as_str v_date) (\<lambda>f_date.
     and_then (as_str v_status) (\<lambda>f_status.
       Return \<lparr>id' = f_id, name = f_name, parsed_categories = f_parsed,
               assigned_categories = f_assigned, parsing_date = f_date,
               status = f_status\<rparr>))))))))))))"

text \<open>Lines 40-50, the loop; the last argument is \<open>old_shops\<close> as built so far.\<close>

fun load_items :: "json list \<Rightarrow> Point list \<Rightarrow> Point list outcome" where
  "load_items [] old_shops = Return old_shops"
| "load_items (item # items) old_shops =
     and_then (point_of_item item) (\<lambda>shop. load_items items (old_shops @ [shop]))"

text \<open>Lines 37-52, the body of the \<open>try\<close>.\<close>

definition load_try :: "fs \<Rightarrow> string \<Rightarrow> Point list outcome" where
  "load_try files filename =
     and_then (read_json files filename) (\<lambda>data.
     and_then (iter_json data) (\<lambda>items. load_items items []))"

text \<open>
  Lines 28-55. \<open>DATA_FILE\<close> is a global that \<open>main.py\<close> reads and does not define: it is
  a parameter. \<open>except Exception\<close> turns every raise of the body into \<open>[]\<close>.
\<close>

definition load_old_shops :: "string \<Rightarrow> fs \<Rightarrow> string option \<Rightarrow> Point list outcome" where
  "load_old_shops DATA_FILE files filename_arg =
     (let filename = (case filename_arg of None \<Rightarrow> DATA_FILE | Some f \<Rightarrow> f)
      in if \<not> os_path_exists files filename then Return []
         else (case load_try files filename of
                 Return old_shops \<Rightarrow> Return old_shops
               | Raise e \<Rightarrow> Return []
               | Untyped \<Rightarrow> Untyped))"

text \<open>
  Line 58, the argument of \<open>os.makedirs\<close>:
  \<open>os.path.dirname(filename) if os.path.dirname(filename) else '.'\<close>.
\<close>

definition save_dir :: "string \<Rightarrow> string" where
  "save_dir filename =
     (if os_path_dirname filename \<noteq> [] then os_path_dirname filename else ''.'')"

text \<open>
  Lines 57-69. The result is the file system after the call and how the call ended:
  \<open>os.makedirs\<close> is outside the \<open>try\<close>, so its raise leaves the function; a raise of
  the write is caught, and the function returns with the file as the write left it.
\<close>

definition save_new_shops ::
  "os_answers \<Rightarrow> fs \<Rightarrow> Point list \<Rightarrow> string \<Rightarrow> fs \<times> unit outcome" where
  "save_new_shops os files shops filename =
     (case os_makedirs os files (save_dir filename) of
        Raise e \<Rightarrow> (files, Raise e)
      | Untyped \<Rightarrow> (files, Untyped)
      | Return files1 \<Rightarrow>
          (let data_to_save = map asdict_point shops
           in case write_file os files1 filename (Json (JArr data_to_save)) of
                (files2, written) \<Rightarrow> (files2, Return ())))"

subsection \<open>The report writers\<close>

text \<open>\<open>asdict(report)\<close> as the JSON object that \<open>json.dump\<close> writes (line 154).\<close>

fun change_json :: "change \<Rightarrow> json" where
  "change_json (OldNew a b) = JObj [(str ''old'', JStr a), (str ''new'', JStr b)]"
| "change_json (Categories a r n_old n_new) =
     JObj [(str ''added'', JArr (map JStr a)), (str ''removed'', JArr (map JStr r)),
           (str ''total_old'', JInt n_old), (str ''total_new'', JInt n_new)]"

definition changed_shop_json :: "changed_shop \<Rightarrow> json" where
  "changed_shop_json e =
     JObj [(str ''name'', JStr (entry_name e)),
           (str ''old_shop'', asdict_point (entry_old_shop e)),
           (str ''new_shop'', asdict_point (entry_new_shop e)),
           (str ''changes'',
            JObj (map (\<lambda>kv. (str (fst kv), change_json (snd kv))) (entry_changes e)))]"

definition stats_json :: "stats_dict \<Rightarrow> json" where
  "stats_json st =
     JObj [(str ''total_before'', JInt (stats_total_before st)),
           (str ''total_after'', JInt (stats_total_after st)),
           (str ''new_count'', JInt (new_count st)),
           (str ''disappeared_count'', JInt (disappeared_count st)),
           (str ''changed_count'', JInt (changed_count st)),
           (str ''unchanged_count'', JInt (unchanged_count st)),
           (str ''change_percentage'', JFloat (change_percentage st))]"

definition asdict_report :: "ChangeReport \<Rightarrow> json" where
  "asdict_report report =
     JObj [(str ''date'', JStr (date report)),
           (str ''total_before'', JInt (total_before report)),
           (str ''total_after'', JInt (total_after report)),
           (str ''new_shops'', JArr (map asdict_point (new_shops report))),
           (str ''disappeared_shops'', JArr (map asdict_point (disappeared_shops report))),
           (str ''changed_shops'', JArr (map changed_shop_json (changed_shops report))),
           (str ''stats'', stats_json (stats report))]"

text \<open>
  Lines 146-166. \<open>date_str\<close> is \<open>datetime.now().strftime("%Y%m%d_%H%M%S")\<close> as read on
  line 151. The two writes are in one \<open>try\<close>: a raise of the first skips the second.
\<close>

definition save_report_to_json ::
  "os_answers \<Rightarrow> string \<Rightarrow> fs \<Rightarrow> ChangeReport \<Rightarrow> fs \<times> unit outcome" where
  "save_report_to_json os date_str files report =
     (case os_makedirs os files ''reports'' of
        Raise e \<Rightarrow> (files, Raise e)
      | Untyped \<Rightarrow> (files, Untyped)
      | Return files1 \<Rightarrow>
          (let latest_file = ''reports/latest_report.json'';
               history_file = ''reports/report_'' @ date_str @ ''.json'';
               report_dict = asdict_report report
           in case write_file os files1 latest_file (Json report_dict) of
                (files2, Return u) \<Rightarrow>
                  (case write_file os files2 history_file (Json report_dict) of
                     (files3, written) \<Rightarrow> (files3, Return ()))
              | (files2, failed) \<Rightarrow> (files2, Return ())))"

text \<open>
  Lines 418-433: the data given to the template. Rendering (jinja2) is kept as the
  constructor \<open>Rendered\<close> on this data.
\<close>

definition template_data_of :: "ChangeReport \<Rightarrow> template_data" where
  "template_data_of report =
     (let percentage = change_percentage (stats report);
          change_color = (if percentage > 0 then str ''success''
                          else if percentage < 0 then str ''danger'' else str ''secondary'')
      in \<lparr>tpl_report_date = date report,
          tpl_total_before = total_before report,
          tpl_total_after = total_after report,
          tpl_new_count = new_count (stats report),
          tpl_disappeared_count = disappeared_count (stats report),
          tpl_changed_count = changed_count (stats report),
          tpl_change_percentage = percentage,
          tpl_change_color = change_color,
          tpl_new_shops = new_shops report,
          tpl_disappeared_shops = disappeared_shops report,
          tpl_changed_shops = changed_shops report\<rparr>)"

text \<open>Lines 168-455. \<open>date_str\<close> is the clock as read on line 448.\<close>

definition generate_html_report ::
  "os_answers \<Rightarrow> string \<Rightarrow> fs \<Rightarrow> ChangeReport \<Rightarrow> fs \<times> unit outcome" where
  "generate_html_report os date_str files report =
     (let html_content = Rendered (template_data_of report)
      in case os_makedirs os files ''reports'' of
           Raise e \<Rightarrow> (files, Raise e)
         | Untyped \<Rightarrow> (files, Untyped)
         | Return files1 \<Rightarrow>
             (let html_file = ''reports/report.html''
              in case write_file os files1 html_file html_content of
                   (files2, Return u) \<Rightarrow>
                     (let history_html_file = ''reports/report_'' @ date_str @ ''.html''
                      in case write_file os files2 history_html_file html_content of
                           (files3, written) \<Rightarrow> (files3, Return ()))
                 | (files2, failed) \<Rightarrow> (files2, Return ())))"

subsection \<open>The ingestion runs\<close>

text \<open>
  The readings of \<open>datetime.now()\<close> during one run: for each item of the answer, for
  the report, and the two that become part of a file name.
\<close>

record clock =
  parsing_time :: "nat \<Rightarrow> py_str"
  report_time :: py_str
  json_stamp :: string
  html_stamp :: string

text \<open>
  Lines 486-494 and 526-534, the same in both runs: the diff, then the three writers one
  after the other, then \<open>return report\<close>. A run returns the file system it leaves behind
  and how it ended; \<open>return\<close> without a value is \<open>Return None\<close>. \<open>old_shops\<close> is what
  \<open>load_old_shops\<close> gave.
\<close>

definition diff_and_persist ::
  "lowering \<Rightarrow> set_order \<Rightarrow> os_answers \<Rightarrow> clock \<Rightarrow> fs \<Rightarrow> string \<Rightarrow> Point list outcome \<Rightarrow>
   Point list \<Rightarrow> fs \<times> ChangeReport option outcome" where
  "diff_and_persist lower it os clk files filename old_shops new_shop_list =
     (case and_then old_shops
             (\<lambda>old. analyze_changes lower it (report_time clk) old new_shop_list) of
        Raise e \<Rightarrow> (files, Raise e)
      | Untyped \<Rightarrow> (files, Untyped)
      | Return report \<Rightarrow>
          (case save_new_shops os files new_shop_list filename of
             (files1, Raise e) \<Rightarrow> (files1, Raise e)
           | (files1, Untyped) \<Rightarrow> (files1, Untyped)
           | (files1, Return u) \<Rightarrow>
               (case save_report_to_json os (json_stamp clk) files1 report of
                  (files2, Raise e) \<Rightarrow> (files2, Raise e)
                | (files2, Untyped) \<Rightarrow> (files2, Untyped)
                | (files2, Return u) \<Rightarrow>
                    (case generate_html_report os (html_stamp clk) files2 report of
                       (files3, Raise e) \<Rightarrow> (files3, Raise e)
                     | (files3, Untyped) \<Rightarrow> (files3, Untyped)
                     | (files3, Return u) \<Rightarrow> (files3, Return (Some report))))))"

text \<open>Lines 515-521: one \<open>Point\<close> from one item of the Aviapark answer.\<close>

definition aviapark_point :: "py_str \<Rightarrow> json \<Rightarrow> Point outcome" where
  "aviapark_point now s =
     and_then (dict_get s (str ''id'') (JStr (str ''''))) (\<lambda>v_id.
     and_then (dict_get s (str ''title'') (JStr (str ''''))) (\<lambda>v_name.
     and_then (dict_get s (str ''categories'') (JArr [])) (\<lambda>v_parsed.
     and_then (dict_get s (str ''status'') (JStr (str ''unknown''))) (\<lambda>v_status.
     and_then (as_str v_id) (\<lambda>f_id.
     and_then (as_str v_name) (\<lambda>f_name.
     and_then (as_str_list v_parsed) (\<lambda>f_parsed.
     and_then (as_str v_status) (\<lambda>f_status.
       Return \<lparr>id' = f_id, name = f_name, parsed_categories = f_parsed,
               assigned_categories = [], parsing_date = now, status = f_status\<rparr>))))))))"

text \<open>Lines 475-481: one \<open>Point\<close> from one item of the Riviera answer.\<close>

definition riviera_point :: "py_str \<Rightarrow> json \<Rightarrow> Point outcome" where
  "riviera_point now s =
     and_then (dict_get s (str ''id'') JNull) (\<lambda>v_id.
     and_then (dict_get s (str ''title'') JNull) (\<lambda>v_name.
     and_then (dict_get s (str ''status'') (JStr (str ''unknown''))) (\<lambda>v_status.
     and_then (as_str v_id) (\<lambda>f_id.
     and_then (as_str v_name) (\<lambda>f_name.
     and_then (as_str v_status) (\<lambda>f_status.
       Return \<lparr>id' = f_id, name = f_name, parsed_categories = [],
               assigned_categories = [], parsing_date = now, status = f_status\<rparr>))))))"

text \<open>
  The loops of lines 474-482 and 514-522; \<open>i\<close> counts the items done, the last argument
  is \<open>new_shop_list\<close> as built so far.
\<close>

fun points_loop ::
  "(py_str \<Rightarrow> json \<Rightarrow> Point outcome) \<Rightarrow> (nat \<Rightarrow> py_str) \<Rightarrow> nat \<Rightarrow> json list \<Rightarrow>
   Point list \<Rightarrow> Point list outcome" where
  "points_loop mk now_at i [] new_shop_list = Return new_shop_list"
| "points_loop mk now_at i (s # ss) new_shop_list =
     and_then (mk (now_at i) s)
       (\<lambda>shop. points_loop mk now_at (Suc i) ss (new_shop_list @ [shop]))"

text \<open>
  Lines 496-534. \<open>response\<close> is how the \<open>try\<close> of lines 506-509 ended: the decoded answer,
  or the exception of \<open>requests.get\<close>, \<open>raise_for_status\<close> or \<open>response.json\<close>.
\<close>

definition parse_aviapark ::
  "string \<Rightarrow> lowering \<Rightarrow> set_order \<Rightarrow> os_answers \<Rightarrow> clock \<Rightarrow> py_error + json \<Rightarrow> fs \<Rightarrow>
   string \<Rightarrow> fs \<times> ChangeReport option outcome" where
  "parse_aviapark DATA_FILE lower it os clk response files filename =
     (let old_shops = load_old_shops DATA_FILE files (Some filename)
      in case response of
           Inl e \<Rightarrow> (files, Return None)
         | Inr data \<Rightarrow>
             (case and_then (json_getitem data (str ''departments'')) (\<lambda>departments.
                   and_then (iter_json departments) (\<lambda>items.
                     points_loop aviapark_point (parsing_time clk) 0 items [])) of
                Raise e \<Rightarrow> (files, Raise e)
              | Untyped \<Rightarrow> (files, Untyped)
              | Return new_shop_list \<Rightarrow>
                  diff_and_persist lower it os clk files filename old_shops new_shop_list))"

text \<open>Lines 457-494, with the \<open>try\<close> of lines 466-469.\<close>

definition parse_riviera ::
  "string \<Rightarrow> lowering \<Rightarrow> set_order \<Rightarrow> os_answers \<Rightarrow> clock \<Rightarrow> py_error + json \<Rightarrow> fs \<Rightarrow>
   string \<Rightarrow> fs \<times> ChangeReport option outcome" where
  "parse_riviera DATA_FILE lower it os clk response files filename =
     (let old_shops = load_old_shops DATA_FILE files (Some filename)
      in case response of
           Inl e \<Rightarrow> (files, Return None)
         | Inr data \<Rightarrow>
             (case and_then (json_getitem data (str ''payload'')) (\<lambda>payload.
                   and_then (json_getitem payload (str ''data'')) (\<lambda>tenants.
                   and_then (iter_json tenants) (\<lambda>items.
                     points_loop riviera_point (parsing_time clk) 0 items []))) of
                Raise e \<Rightarrow> (files, Raise e)
              | Untyped \<Rightarrow> (files, Untyped)
              | Return new_shop_list \<Rightarrow>
                  diff_and_persist lower it os clk files filename old_shops new_shop_list))"

subsection \<open>The example of the specification, and instances of the parameters\<close>

definition shop_a_old :: Point where
  "shop_a_old =
     \<lparr>id' = str ''1'', name = str ''Shop A'', parsed_categories = [str ''food''],
      assigned_categories = [], parsing_date = str '''', status = str ''opened''\<rparr>"

definition shop_a_new :: Point where
  "shop_a_new =
     \<lparr>id' = str ''1'', name = str ''shop a'',
      parsed_categories = [str ''food'', str ''drinks''],
      assigned_categories = [], parsing_date = str '''', status = str ''closed''\<rparr>"

definition shop_b :: Point where
  "shop_b =
     \<lparr>id' = str ''2'', name = str ''Shop B'', parsed_categories = [],
      assigned_categories = [], parsing_date = str '''', status = str ''opened''\<rparr>"

text \<open>
  Two Points whose names are not ASCII: \<open>CAF\<close> and a capital E with acute accent
  (U+00C9) after a no-break space (U+00A0), and \<open>caf\<close> and a small e with acute accent
  (U+00E9) before a next-line character (U+0085).
\<close>

definition cafe_upper :: Point where
  "cafe_upper =
     \<lparr>id' = str ''7'', name = [0xA0, 0x43, 0x41, 0x46, 0xC9], parsed_categories = [],
      assigned_categories = [], parsing_date = str '''', status = str ''opened''\<rparr>"


text \<open>A Point with a name and parsed categories, and nothing else of interest.\<close>

definition plain_shop :: "py_str \<Rightarrow> py_str list \<Rightarrow> Point" where
  "plain_shop nm cats =
     \<lparr>id' = str '''', name = nm, parsed_categories = cats, assigned_categories = [],
      parsing_date = str '''', status = str ''opened''\<rparr>"

text \<open>
  A lowering for the examples. It is an instance of the parameter, not \<open>str.lower\<close>: it
  lowers the letters A to Z, the capital letters of Latin-1 (U+00C0 to U+00DE without
  the multiplication sign) and the Cyrillic capitals U+0400 to U+042F, as \<open>str.lower\<close>
  does, and leaves every other code point as it is.
\<close>

definition sample_lower_char :: "codepoint \<Rightarrow> codepoint" where
  "sample_lower_char c =
     (if 0x41 \<le> c \<and> c \<le> 0x5A then c + 0x20
      else if 0xC0 \<le> c \<and> c \<le> 0xDE \<and> c \<noteq> 0xD7 then c + 0x20
      else if 0x410 \<le> c \<and> c \<le> 0x42F then c + 0x20
      else if 0x400 \<le> c \<and> c \<le> 0x40F then c + 0x50
      else c)"

definition sample_lower :: lowering where
  "sample_lower s = map sample_lower_char s"

text \<open>
  Three iteration orders: sorted, sorted backwards, and one that iterates a set of
  names forwards and a set of categories backwards in the same process.
\<close>

definition sorted_order :: set_order where
  "sorted_order place xs ys S = sorted_list_of_set S"

definition reversed_order :: set_order where
  "reversed_order place xs ys S = rev (sorted_list_of_set S)"

definition mixed_order :: set_order where
  "mixed_order place xs ys S =
     (if place = Added \<or> place = Removed then rev (sorted_list_of_set S)
      else sorted_list_of_set S)"

text \<open>
  Two operating systems: one that performs every call, and one that performs
  \<open>os.makedirs\<close> and refuses every write.
\<close>

definition willing_os :: os_answers where
  "willing_os = \<lparr>on_makedirs = (\<lambda>files d. None), on_write = (\<lambda>files p. Written)\<rparr>"

definition refusing_os :: os_answers where
  "refusing_os =
     \<lparr>on_makedirs = (\<lambda>files d. None), on_write = (\<lambda>files p. Refused PermissionError)\<rparr>"

section \<open>Properties\<close>

subsection \<open>Outcomes, dicts and set iteration\<close>

lemma and_then_simps [simp]:
  "and_then (Return x) f = f x"
  "and_then (Raise e) f = Raise e"
  "and_then Untyped f = Untyped"
  by (simp_all add: and_then_def)

lemma map_of_foldl_update:
  "map_of (foldl (\<lambda>d shop. AList.update (key shop) shop d) d0 shops) =
   map_of d0 ++ map_of (rev (map (\<lambda>shop. (key shop, shop)) shops))"
proof (induction shops arbitrary: d0)
  case Nil
  then show ?case by simp
next
  case (Cons s shops)
  show ?case
    by (simp add: Cons.IH update_conv' map_add_def fun_eq_iff split: option.splits)
qed

lemma map_of_dict_by_name:
  "map_of (dict_by_name lower shops) =
   map_of (rev (map (\<lambda>shop. (normalize_name lower (name shop), shop)) shops))"
  by (simp add: dict_by_name_def map_of_foldl_update)

lemma map_of_rev_last:
  "map_of (rev (map (\<lambda>shop. (key shop, shop)) shops)) k =
   (case filter (\<lambda>shop. key shop = k) shops of [] \<Rightarrow> None | p # ps \<Rightarrow> Some (last (p # ps)))"
proof (induction shops rule: rev_induct)
  case Nil
  then show ?case by simp
next
  case (snoc s shops)
  then show ?case by (auto split: list.splits)
qed

lemma dict_by_name_last:
  "map_of (dict_by_name lower shops) k =
   (if with_key lower k shops = [] then None else Some (last (with_key lower k shops)))"
  by (simp add: map_of_dict_by_name map_of_rev_last with_key_def split: list.splits)

lemma keys_dom: "keys d = dom (map_of d)"
  by (simp add: keys_def dom_map_of_conv_image_fst)

lemma keys_dict_by_name: "keys (dict_by_name lower shops) = normalized_names lower shops"
proof -
  have "keys (dict_by_name lower shops) =
        dom (map_of (rev (map (\<lambda>shop. (normalize_name lower (name shop), shop)) shops)))"
    by (simp add: keys_dom map_of_dict_by_name)
  also have "\<dots> = normalized_names lower shops"
    by (simp add: dom_map_of_conv_image_fst normalized_names_def image_image)
  finally show ?thesis .
qed

lemma finite_keys [simp]: "finite (keys d)"
  by (simp add: keys_def)

lemma getitem_Return: "k \<in> keys d \<Longrightarrow> getitem d k = Return (the (map_of d k))"
  by (auto simp: getitem_def keys_def map_of_eq_None_iff split: option.splits)

lemma lookup_all_Return:
  "set ks \<subseteq> keys d \<Longrightarrow> lookup_all d ks = Return (map (\<lambda>k. the (map_of d k)) ks)"
  by (induction ks) (simp_all add: getitem_Return)

lemma set_order_okD:
  "set_order_ok it \<Longrightarrow> finite S \<Longrightarrow> set (it place xs ys S) = S"
  "set_order_ok it \<Longrightarrow> finite S \<Longrightarrow> distinct (it place xs ys S)"
  "set_order_ok it \<Longrightarrow> finite S \<Longrightarrow> length (it place xs ys S) = card S"
  by (auto simp: set_order_ok_def distinct_card[symmetric])

lemma finite_normalized_names [simp]: "finite (normalized_names lower shops)"
  by (simp add: normalized_names_def)

lemma key_lists:
  assumes "set_order_ok it"
  shows "set (appeared_keys lower it old_shops new_shops_in) =
           normalized_names lower new_shops_in - normalized_names lower old_shops"
    and "set (disappeared_keys lower it old_shops new_shops_in) =
           normalized_names lower old_shops - normalized_names lower new_shops_in"
    and "set (remaining_keys lower it old_shops new_shops_in) =
           normalized_names lower old_shops \<inter> normalized_names lower new_shops_in"
    and "distinct (appeared_keys lower it old_shops new_shops_in)"
    and "distinct (disappeared_keys lower it old_shops new_shops_in)"
    and "distinct (remaining_keys lower it old_shops new_shops_in)"
    and "length (appeared_keys lower it old_shops new_shops_in) =
           card (normalized_names lower new_shops_in - normalized_names lower old_shops)"
    and "length (disappeared_keys lower it old_shops new_shops_in) =
           card (normalized_names lower old_shops - normalized_names lower new_shops_in)"
    and "length (remaining_keys lower it old_shops new_shops_in) =
           card (normalized_names lower old_shops \<inter> normalized_names lower new_shops_in)"
  using assms
  by (simp_all add: appeared_keys_def disappeared_keys_def remaining_keys_def set_order_okD)

subsection \<open>What \<open>analyze_changes\<close> returns\<close>

lemma changed_loop_Return:
  "set ks \<subseteq> keys old_dict \<inter> keys new_dict \<Longrightarrow>
   changed_loop it old_dict new_dict ks acc =
   Return (acc @ List.map_filter
     (\<lambda>k. changed_entry it (the (map_of old_dict k)) (the (map_of new_dict k))) ks)"
proof (induction ks arbitrary: acc)
  case Nil
  then show ?case by (simp add: List.map_filter_simps)
next
  case (Cons k ks)
  then show ?case
    by (simp add: getitem_Return List.map_filter_simps split: option.splits)
qed

lemma int_truediv_max:
  "int_truediv a (max b 1) = Return (to_float (of_int a / of_int (max b 1)))"
  by (simp add: int_truediv_def)

lemma analyze_changes_Return:
  assumes "set_order_ok it"
  shows "analyze_changes lower it now old_shops new_shops_in =
    Return
      \<lparr>date = now,
       total_before = int (length old_shops),
       total_after = int (length new_shops_in),
       new_shops = map (\<lambda>k. the (map_of (dict_by_name lower new_shops_in) k))
                     (appeared_keys lower it old_shops new_shops_in),
       disappeared_shops = map (\<lambda>k. the (map_of (dict_by_name lower old_shops) k))
                     (disappeared_keys lower it old_shops new_shops_in),
       changed_shops = List.map_filter
          (\<lambda>k. changed_entry it (the (map_of (dict_by_name lower old_shops) k))
                                 (the (map_of (dict_by_name lower new_shops_in) k)))
          (remaining_keys lower it old_shops new_shops_in),
       stats =
         \<lparr>stats_total_before = int (length old_shops),
          stats_total_after = int (length new_shops_in),
          new_count = int (length (appeared_keys lower it old_shops new_shops_in)),
          disappeared_count = int (length (disappeared_keys lower it old_shops new_shops_in)),
          changed_count = int (length (List.map_filter
            (\<lambda>k. changed_entry it (the (map_of (dict_by_name lower old_shops) k))
                                 (the (map_of (dict_by_name lower new_shops_in) k)))
            (remaining_keys lower it old_shops new_shops_in))),
          unchanged_count =
            int (card (normalized_names lower old_shops \<inter> normalized_names lower new_shops_in)) -
            int (length (List.map_filter
            (\<lambda>k. changed_entry it (the (map_of (dict_by_name lower old_shops) k))
                                 (the (map_of (dict_by_name lower new_shops_in) k)))
            (remaining_keys lower it old_shops new_shops_in))),
          change_percentage = py_round2 (float_mul_int
            (to_float (of_int (int (length new_shops_in) - int (length old_shops)) /
               of_int (max (int (length old_shops)) 1))) 100)\<rparr>\<rparr>"
proof -
  let ?od = "dict_by_name lower old_shops" and ?nd = "dict_by_name lower new_shops_in"
  let ?A = "appeared_keys lower it old_shops new_shops_in"
  let ?D = "disappeared_keys lower it old_shops new_shops_in"
  let ?R = "remaining_keys lower it old_shops new_shops_in"
  have keys: "it Appeared (map fst ?nd) (map fst ?od) (keys ?nd - keys ?od) = ?A"
    "it Disappeared (map fst ?od) (map fst ?nd) (keys ?od - keys ?nd) = ?D"
    "it Remaining (map fst ?od) (map fst ?nd) (keys ?od \<inter> keys ?nd) = ?R"
    by (simp_all add: appeared_keys_def disappeared_keys_def remaining_keys_def
        keys_dict_by_name)
  have a: "lookup_all ?nd ?A = Return (map (\<lambda>k. the (map_of ?nd k)) ?A)"
    by (rule lookup_all_Return) (simp add: key_lists[OF assms] keys_dict_by_name)
  have d: "lookup_all ?od ?D = Return (map (\<lambda>k. the (map_of ?od k)) ?D)"
    by (rule lookup_all_Return) (simp add: key_lists[OF assms] keys_dict_by_name)
  have c: "changed_loop it ?od ?nd ?R [] =
           Return ([] @ List.map_filter
             (\<lambda>k. changed_entry it (the (map_of ?od k)) (the (map_of ?nd k))) ?R)"
    by (rule changed_loop_Return) (simp add: key_lists[OF assms] keys_dict_by_name)
  show ?thesis
    unfolding analyze_changes_def Let_def keys a d c int_truediv_max
    by (simp add: keys_dict_by_name)
qed

lemma with_key_nonempty:
  "k \<in> normalized_names lower shops \<Longrightarrow> with_key lower k shops \<noteq> []"
  by (auto simp: normalized_names_def with_key_def filter_empty_conv)

lemma stored_point:
  assumes "k \<in> normalized_names lower shops"
  shows "the (map_of (dict_by_name lower shops) k) = last (with_key lower k shops)"
  using assms by (simp add: dict_by_name_last with_key_nonempty)

lemma last_with_key:
  assumes "k \<in> normalized_names lower shops"
  shows "last (with_key lower k shops) \<in> set shops"
    and "normalize_name lower (name (last (with_key lower k shops))) = k"
proof -
  have "last (with_key lower k shops) \<in> set (with_key lower k shops)"
    using assms by (simp add: with_key_nonempty)
  then show "last (with_key lower k shops) \<in> set shops"
    and "normalize_name lower (name (last (with_key lower k shops))) = k"
    by (simp_all add: with_key_def)
qed

lemma normalized_names_stored:
  assumes "set ks \<subseteq> normalized_names lower shops"
  shows "normalized_names lower (map (\<lambda>k. the (map_of (dict_by_name lower shops) k)) ks) =
         set ks"
proof -
  have "normalize_name lower (name (the (map_of (dict_by_name lower shops) k))) = k"
    if "k \<in> set ks" for k
    using that assms by (auto simp: stored_point last_with_key)
  then show ?thesis
    by (auto simp: normalized_names_def image_iff)
qed

lemma length_map_filter_le: "length (List.map_filter f xs) \<le> length xs"
  by (induction xs) (auto simp: List.map_filter_simps split: option.splits)

lemma analyze_changes_fields:
  assumes "set_order_ok it"
  shows "\<exists>r. analyze_changes lower it now old_shops new_shops_in = Return r \<and>
    date r = now \<and>
    total_before r = int (length old_shops) \<and>
    total_after r = int (length new_shops_in) \<and>
    new_shops r = map (\<lambda>k. the (map_of (dict_by_name lower new_shops_in) k))
                    (appeared_keys lower it old_shops new_shops_in) \<and>
    disappeared_shops r = map (\<lambda>k. the (map_of (dict_by_name lower old_shops) k))
                    (disappeared_keys lower it old_shops new_shops_in) \<and>
    changed_shops r = List.map_filter
          (\<lambda>k. changed_entry it (the (map_of (dict_by_name lower old_shops) k))
                                 (the (map_of (dict_by_name lower new_shops_in) k)))
          (remaining_keys lower it old_shops new_shops_in) \<and>
    stats_total_before (stats r) = int (length old_shops) \<and>
    stats_total_after (stats r) = int (length new_shops_in) \<and>
    new_count (stats r) = int (length (new_shops r)) \<and>
    disappeared_count (stats r) = int (length (disappeared_shops r)) \<and>
    changed_count (stats r) = int (length (changed_shops r)) \<and>
    unchanged_count (stats r) =
      int (card (normalized_names lower old_shops \<inter> normalized_names lower new_shops_in)) -
      int (length (changed_shops r)) \<and>
    change_percentage (stats r) = py_round2 (float_mul_int
            (to_float (of_int (int (length new_shops_in) - int (length old_shops)) /
               of_int (max (int (length old_shops)) 1))) 100)"
  using assms by (simp add: analyze_changes_Return)

subsection \<open>Instances of the parameters, and the example\<close>

lemma set_order_ok_sorted: "set_order_ok sorted_order"
  by (simp add: set_order_ok_def sorted_order_def)

lemma set_order_ok_reversed: "set_order_ok reversed_order"
  by (simp add: set_order_ok_def reversed_order_def)

lemma set_order_ok_mixed: "set_order_ok mixed_order"
  by (simp add: set_order_ok_def mixed_order_def)

lemma sample_lower_on_ascii: "lower_on_ascii sample_lower"
proof -
  have "sample_lower_char c = ascii_lower c" if "c < 0x80" for c
    using that by (simp add: sample_lower_char_def ascii_lower_def)
  then show ?thesis
    by (simp add: lower_on_ascii_def sample_lower_def list_all_iff)
qed

lemma str_simps: "str [] = []" "str (c # cs) = of_char c # str cs"
  by (simp_all add: str_def)

lemma example_ascii:
  "list_all (\<lambda>c. c < 0x80) (str ''Shop A'')"
  "list_all (\<lambda>c. c < 0x80) (str ''shop a'')"
  "list_all (\<lambda>c. c < 0x80) (str ''Shop B'')"
  by (simp_all add: str_simps)

lemma example_stripped:
  "py_strip (str ''Shop A'') = str ''Shop A''"
  "py_strip (str ''shop a'') = str ''shop a''"
  "py_strip (str ''Shop B'') = str ''Shop B''"
  by (simp_all add: str_simps py_strip_def py_isspace_def)

lemma example_lowered:
  "map ascii_lower (str ''Shop A'') = str ''shop a''"
  "map ascii_lower (str ''shop a'') = str ''shop a''"
  "map ascii_lower (str ''Shop B'') = str ''shop b''"
  by (simp_all add: str_simps ascii_lower_def)

lemma normalize_name_examples:
  assumes "lower_on_ascii lower"
  shows "normalize_name lower (str ''Shop A'') = str ''shop a''"
    and "normalize_name lower (str ''shop a'') = str ''shop a''"
    and "normalize_name lower (str ''Shop B'') = str ''shop b''"
  using assms example_ascii
  by (simp_all add: normalize_name_def example_stripped lower_on_ascii_def example_lowered)

lemma example_distinct:
  "str ''shop a'' \<noteq> str ''shop b''" "str ''shop b'' \<noteq> str ''shop a''"
  "str ''food'' \<noteq> str ''drinks''" "str ''drinks'' \<noteq> str ''food''"
  "str ''opened'' \<noteq> str ''closed''" "str ''1'' \<noteq> str ''2''"
  "str ''Shop A'' \<noteq> str ''shop a''" "str ''shop a'' \<noteq> str ''Shop B''"
  by (simp_all add: str_simps)

lemma example_names:
  assumes "lower_on_ascii lower"
  shows "normalized_names lower [shop_a_old] = {str ''shop a''}"
    and "normalized_names lower [shop_a_new, shop_b] = {str ''shop a'', str ''shop b''}"
  by (simp_all add: normalized_names_def shop_a_old_def shop_a_new_def shop_b_def
      normalize_name_examples[OF assms])

subsection \<open>Completeness of the classification\<close>

text \<open>
  Claim C1. For any two input collections \<open>analyze_changes\<close> returns a report in which
  the lengths of \<open>new_shops\<close>, \<open>disappeared_shops\<close> and \<open>changed_shops\<close> and
  \<open>unchanged_count\<close> add up to the number of normalized names of the two inputs
  together. The names of \<open>new_shops\<close> are the keys only in the new input, those of
  \<open>disappeared_shops\<close> the keys only in the old input, the changed and the unchanged
  shops together are the keys in both, and every key is in exactly one of the three
  classes.
\<close>

theorem C1_completeness:
  assumes "set_order_ok it"
  shows "\<exists>r. analyze_changes lower it now old_shops new_shops_in = Return r \<and>
    int (length (new_shops r)) + int (length (disappeared_shops r)) +
      int (length (changed_shops r)) + unchanged_count (stats r) =
      int (card (normalized_names lower old_shops \<union> normalized_names lower new_shops_in)) \<and>
    normalized_names lower (new_shops r) =
      normalized_names lower new_shops_in - normalized_names lower old_shops \<and>
    normalized_names lower (disappeared_shops r) =
      normalized_names lower old_shops - normalized_names lower new_shops_in \<and>
    int (length (changed_shops r)) + unchanged_count (stats r) =
      int (card (normalized_names lower old_shops \<inter> normalized_names lower new_shops_in)) \<and>
    (\<forall>k \<in> normalized_names lower old_shops \<union> normalized_names lower new_shops_in.
       (k \<in> normalized_names lower (new_shops r) \<and>
          k \<notin> normalized_names lower (disappeared_shops r) \<and>
          k \<notin> normalized_names lower old_shops \<inter> normalized_names lower new_shops_in) \<or>
       (k \<notin> normalized_names lower (new_shops r) \<and>
          k \<in> normalized_names lower (disappeared_shops r) \<and>
          k \<notin> normalized_names lower old_shops \<inter> normalized_names lower new_shops_in) \<or>
       (k \<notin> normalized_names lower (new_shops r) \<and>
          k \<notin> normalized_names lower (disappeared_shops r) \<and>
          k \<in> normalized_names lower old_shops \<inter> normalized_names lower new_shops_in))"
proof -
  let ?O = "normalized_names lower old_shops" and ?N = "normalized_names lower new_shops_in"
  let ?A = "appeared_keys lower it old_shops new_shops_in"
  let ?D = "disappeared_keys lower it old_shops new_shops_in"
  note kl = key_lists[OF assms, of lower old_shops new_shops_in]
  from analyze_changes_fields[OF assms, of lower now old_shops new_shops_in]
  obtain r where ret: "analyze_changes lower it now old_shops new_shops_in = Return r"
    and new: "new_shops r = map (\<lambda>k. the (map_of (dict_by_name lower new_shops_in) k)) ?A"
    and dis: "disappeared_shops r = map (\<lambda>k. the (map_of (dict_by_name lower old_shops) k)) ?D"
    and unch: "unchanged_count (stats r) = int (card (?O \<inter> ?N)) - int (length (changed_shops r))"
    by blast
  have A: "normalized_names lower (new_shops r) = ?N - ?O"
    unfolding new by (subst normalized_names_stored) (auto simp: kl)
  have D: "normalized_names lower (disappeared_shops r) = ?O - ?N"
    unfolding dis by (subst normalized_names_stored) (auto simp: kl)
  have lA: "length (new_shops r) = card (?N - ?O)"
    unfolding new by (simp add: kl)
  have lD: "length (disappeared_shops r) = card (?O - ?N)"
    unfolding dis by (simp add: kl)
  have card: "card (?N - ?O) + card (?O - ?N) + card (?O \<inter> ?N) = card (?O \<union> ?N)"
  proof -
    have "card (?O \<union> ?N) = card ((?N - ?O) \<union> (?O - ?N) \<union> (?O \<inter> ?N))"
      by (rule arg_cong[where f = card]) auto
    also have "\<dots> = card ((?N - ?O) \<union> (?O - ?N)) + card (?O \<inter> ?N)"
      by (rule card_Un_disjoint) auto
    also have "card ((?N - ?O) \<union> (?O - ?N)) = card (?N - ?O) + card (?O - ?N)"
      by (rule card_Un_disjoint) auto
    finally show ?thesis by simp
  qed
  have sum: "int (length (new_shops r)) + int (length (disappeared_shops r)) +
      int (length (changed_shops r)) + unchanged_count (stats r) = int (card (?O \<union> ?N))"
    using card by (simp add: lA lD unch)
  have common: "int (length (changed_shops r)) + unchanged_count (stats r) = int (card (?O \<inter> ?N))"
    by (simp add: unch)
  have one: "\<forall>k \<in> ?O \<union> ?N.
       (k \<in> normalized_names lower (new_shops r) \<and>
          k \<notin> normalized_names lower (disappeared_shops r) \<and> k \<notin> ?O \<inter> ?N) \<or>
       (k \<notin> normalized_names lower (new_shops r) \<and>
          k \<in> normalized_names lower (disappeared_shops r) \<and> k \<notin> ?O \<inter> ?N) \<or>
       (k \<notin> normalized_names lower (new_shops r) \<and>
          k \<notin> normalized_names lower (disappeared_shops r) \<and> k \<in> ?O \<inter> ?N)"
    unfolding A D by blast
  from ret sum A D common one show ?thesis by blast
qed

theorem C1_completeness_witness:
  "set_order_ok sorted_order \<and>
   (\<exists>r. analyze_changes sample_lower sorted_order (str ''2025-01-01 00:00:00'')
          [shop_a_old] [shop_a_new, shop_b] = Return r \<and>
      int (length (new_shops r)) + int (length (disappeared_shops r)) +
      int (length (changed_shops r)) + unchanged_count (stats r) = 2)"
proof -
  have "normalized_names sample_lower [shop_a_old] \<union>
        normalized_names sample_lower [shop_a_new, shop_b] = {str ''shop a'', str ''shop b''}"
    by (auto simp: example_names[OF sample_lower_on_ascii])
  then have "card (normalized_names sample_lower [shop_a_old] \<union>
                   normalized_names sample_lower [shop_a_new, shop_b]) = 2"
    by (simp add: example_distinct)
  with C1_completeness[OF set_order_ok_sorted, of sample_lower "str ''2025-01-01 00:00:00''"
      "[shop_a_old]" "[shop_a_new, shop_b]"] set_order_ok_sorted
  show ?thesis by auto
qed

subsection \<open>The points and entries of a report\<close>

lemma set_order_empty: "set_order_ok it \<Longrightarrow> it place xs ys {} = []"
  using set_order_okD(1)[of it "{}" place xs ys] by simp

lemma set_order_single: "set_order_ok it \<Longrightarrow> it place xs ys {x} = [x]"
proof -
  assume ok: "set_order_ok it"
  then have d: "distinct (it place xs ys {x})" and s: "set (it place xs ys {x}) = {x}"
    by (simp_all add: set_order_okD)
  from s obtain y zs where eq: "it place xs ys {x} = y # zs"
    by (cases "it place xs ys {x}") auto
  with s d have "y = x" "zs = []"
    by (auto simp: subset_singleton_iff set_empty[symmetric] simp del: set_empty)
  with eq show ?thesis by simp
qed

lemma shop_changes_same: "shop_changes it p p = []"
  by (simp add: shop_changes_def)

lemma changed_entry_same: "changed_entry it p p = None"
  by (simp add: changed_entry_def shop_changes_same)

lemma map_filter_all_None: "(\<And>x. x \<in> set xs \<Longrightarrow> f x = None) \<Longrightarrow> List.map_filter f xs = []"
  by (induction xs) (simp_all add: List.map_filter_simps)

lemma in_set_map_filter:
  "e \<in> set (List.map_filter f xs) \<longleftrightarrow> (\<exists>x \<in> set xs. f x = Some e)"
  by (induction xs) (auto simp: List.map_filter_simps split: option.splits)


lemma changed_shops_entries:
  assumes ok: "set_order_ok it"
    and ret: "analyze_changes lower it now old_shops new_shops_in = Return r"
    and e: "e \<in> set (changed_shops r)"
  shows "\<exists>k \<in> normalized_names lower old_shops \<inter> normalized_names lower new_shops_in.
    entry_old_shop e = last (with_key lower k old_shops) \<and>
    entry_new_shop e = last (with_key lower k new_shops_in) \<and>
    entry_name e = name (entry_old_shop e) \<and>
    entry_changes e = shop_changes it (entry_old_shop e) (entry_new_shop e) \<and>
    entry_changes e \<noteq> []"
proof -
  let ?O = "normalized_names lower old_shops" and ?N = "normalized_names lower new_shops_in"
  let ?R = "remaining_keys lower it old_shops new_shops_in"
  from analyze_changes_fields[OF ok, of lower now old_shops new_shops_in] ret
  have chg: "changed_shops r = List.map_filter
          (\<lambda>k. changed_entry it (the (map_of (dict_by_name lower old_shops) k))
                                 (the (map_of (dict_by_name lower new_shops_in) k))) ?R"
    by auto
  from e obtain k where k: "k \<in> set ?R"
    and some: "changed_entry it (the (map_of (dict_by_name lower old_shops) k))
                 (the (map_of (dict_by_name lower new_shops_in) k)) = Some e"
    unfolding chg in_set_map_filter by blast
  from k have kin: "k \<in> ?O \<inter> ?N"
    by (simp add: key_lists[OF ok])
  then have "the (map_of (dict_by_name lower old_shops) k) = last (with_key lower k old_shops)"
    "the (map_of (dict_by_name lower new_shops_in) k) = last (with_key lower k new_shops_in)"
    by (simp_all add: stored_point)
  with some have "changed_entry it (last (with_key lower k old_shops))
                    (last (with_key lower k new_shops_in)) = Some e"
    by simp
  then have "entry_old_shop e = last (with_key lower k old_shops) \<and>
    entry_new_shop e = last (with_key lower k new_shops_in) \<and>
    entry_name e = name (entry_old_shop e) \<and>
    entry_changes e = shop_changes it (entry_old_shop e) (entry_new_shop e) \<and>
    entry_changes e \<noteq> []"
    by (auto simp: changed_entry_def Let_def split: if_splits)
  with kin show ?thesis by blast
qed


lemma classified_points:
  assumes ok: "set_order_ok it"
    and ret: "analyze_changes lower it now old_shops new_shops_in = Return r"
  shows "p \<in> set (new_shops r) \<Longrightarrow>
           p = last (with_key lower (normalize_name lower (name p)) new_shops_in)"
    and "p \<in> set (disappeared_shops r) \<Longrightarrow>
           p = last (with_key lower (normalize_name lower (name p)) old_shops)"
proof -
  let ?O = "normalized_names lower old_shops" and ?N = "normalized_names lower new_shops_in"
  let ?A = "appeared_keys lower it old_shops new_shops_in"
  let ?D = "disappeared_keys lower it old_shops new_shops_in"
  note kl = key_lists[OF ok, of lower old_shops new_shops_in]
  from analyze_changes_fields[OF ok, of lower now old_shops new_shops_in] ret
  have new: "new_shops r = map (\<lambda>k. the (map_of (dict_by_name lower new_shops_in) k)) ?A"
    and dis: "disappeared_shops r = map (\<lambda>k. the (map_of (dict_by_name lower old_shops) k)) ?D"
    by auto
  show "p = last (with_key lower (normalize_name lower (name p)) new_shops_in)"
    if "p \<in> set (new_shops r)"
  proof -
    from that obtain k where "k \<in> ?N - ?O"
      "p = the (map_of (dict_by_name lower new_shops_in) k)"
      unfolding new by (auto simp: kl)
    then show ?thesis by (simp add: stored_point last_with_key)
  qed
  show "p = last (with_key lower (normalize_name lower (name p)) old_shops)"
    if "p \<in> set (disappeared_shops r)"
  proof -
    from that obtain k where "k \<in> ?O - ?N"
      "p = the (map_of (dict_by_name lower old_shops) k)"
      unfolding dis by (auto simp: kl)
    then show ?thesis by (simp add: stored_point last_with_key)
  qed
qed

lemma distinct_keys_foldl:
  "distinct (map fst d0) \<Longrightarrow>
   distinct (map fst (foldl (\<lambda>d shop. AList.update (key shop) shop d) d0 shops))"
  by (induction shops arbitrary: d0) (simp_all add: distinct_update)

lemma distinct_dict_by_name: "distinct (map fst (dict_by_name lower shops))"
  by (simp add: dict_by_name_def distinct_keys_foldl)

lemma length_map_filter: "length (List.map_filter f xs) = length (filter (\<lambda>x. f x \<noteq> None) xs)"
  by (induction xs) (auto simp: List.map_filter_simps split: option.splits)

lemma changed_entry_None_iff:
  "changed_entry it p q = None \<longleftrightarrow> shop_changes it p q = []"
  "(\<exists>e. changed_entry it p q = Some e) \<longleftrightarrow> shop_changes it p q \<noteq> []"
  by (simp_all add: changed_entry_def Let_def)

lemma changed_count_card:
  assumes ok: "set_order_ok it"
    and ret: "analyze_changes lower it now old_shops new_shops_in = Return r"
  shows "length (changed_shops r) =
    card {k \<in> normalized_names lower old_shops \<inter> normalized_names lower new_shops_in.
          shop_changes it (last (with_key lower k old_shops))
            (last (with_key lower k new_shops_in)) \<noteq> []}"
proof -
  let ?C = "normalized_names lower old_shops \<inter> normalized_names lower new_shops_in"
  let ?R = "remaining_keys lower it old_shops new_shops_in"
  let ?g = "\<lambda>k. changed_entry it (the (map_of (dict_by_name lower old_shops) k))
                                 (the (map_of (dict_by_name lower new_shops_in) k))"
  note kl = key_lists[OF ok, of lower old_shops new_shops_in]
  from analyze_changes_fields[OF ok, of lower now old_shops new_shops_in] ret
  have chg: "changed_shops r = List.map_filter ?g ?R"
    by auto
  have "length (changed_shops r) = length (filter (\<lambda>k. ?g k \<noteq> None) ?R)"
    by (simp add: chg length_map_filter)
  also have "\<dots> = card ({k. ?g k \<noteq> None} \<inter> set ?R)"
    by (intro distinct_length_filter) (simp add: kl)
  also have "{k. ?g k \<noteq> None} \<inter> set ?R =
    {k \<in> ?C. shop_changes it (last (with_key lower k old_shops))
                (last (with_key lower k new_shops_in)) \<noteq> []}"
    by (auto simp: kl stored_point changed_entry_None_iff)
  finally show ?thesis .
qed

subsection \<open>A collection against itself\<close>

text \<open>
  Claim C2. Diffing a collection against itself returns a report with empty
  \<open>new_shops\<close>, empty \<open>disappeared_shops\<close> and empty \<open>changed_shops\<close>, and
  \<open>unchanged_count\<close> is the number of its Points after deduplication by normalized
  name.
\<close>

theorem C2_self_diff:
  assumes "set_order_ok it"
  shows "\<exists>r. analyze_changes lower it now shops shops = Return r \<and>
    new_shops r = [] \<and> disappeared_shops r = [] \<and> changed_shops r = [] \<and>
    unchanged_count (stats r) = int (card (normalized_names lower shops))"
proof -
  note kl = key_lists[OF assms, of lower shops shops]
  from analyze_changes_fields[OF assms, of lower now shops shops]
  obtain r where ret: "analyze_changes lower it now shops shops = Return r"
    and new: "new_shops r = map (\<lambda>k. the (map_of (dict_by_name lower shops) k))
                (appeared_keys lower it shops shops)"
    and dis: "disappeared_shops r = map (\<lambda>k. the (map_of (dict_by_name lower shops) k))
                (disappeared_keys lower it shops shops)"
    and chg: "changed_shops r = List.map_filter
          (\<lambda>k. changed_entry it (the (map_of (dict_by_name lower shops) k))
                                 (the (map_of (dict_by_name lower shops) k)))
          (remaining_keys lower it shops shops)"
    and unch: "unchanged_count (stats r) =
      int (card (normalized_names lower shops \<inter> normalized_names lower shops)) -
      int (length (changed_shops r))"
    by blast
  have "appeared_keys lower it shops shops = []" "disappeared_keys lower it shops shops = []"
    using kl(1,2) by simp_all
  then have "new_shops r = []" "disappeared_shops r = []"
    by (simp_all add: new dis)
  moreover have c: "changed_shops r = []"
    unfolding chg by (rule map_filter_all_None) (simp add: changed_entry_same)
  moreover have "unchanged_count (stats r) = int (card (normalized_names lower shops))"
    by (simp add: unch c)
  ultimately show ?thesis using ret by blast
qed

theorem C2_self_diff_witness:
  "set_order_ok sorted_order \<and>
   (\<exists>r. analyze_changes sample_lower sorted_order (str ''2025-01-01 00:00:00'')
          [shop_a_new, shop_b, shop_a_old] [shop_a_new, shop_b, shop_a_old] = Return r \<and>
      new_shops r = [] \<and> disappeared_shops r = [] \<and> changed_shops r = [] \<and>
      unchanged_count (stats r) = 2)"
proof -
  have "normalized_names sample_lower [shop_a_new, shop_b, shop_a_old] =
        {str ''shop a'', str ''shop b''}"
    by (auto simp: normalized_names_def shop_a_old_def shop_a_new_def shop_b_def
        normalize_name_examples[OF sample_lower_on_ascii])
  then have "card (normalized_names sample_lower [shop_a_new, shop_b, shop_a_old]) = 2"
    by (simp add: example_distinct)
  with C2_self_diff[OF set_order_ok_sorted, of sample_lower "str ''2025-01-01 00:00:00''"
      "[shop_a_new, shop_b, shop_a_old]"] set_order_ok_sorted
  show ?thesis by auto
qed

subsection \<open>Normalized names\<close>




subsection \<open>The example scenario\<close>

lemma example_stored:
  assumes "lower_on_ascii lower"
  shows "the (map_of (dict_by_name lower [shop_a_old]) (str ''shop a'')) = shop_a_old"
    and "the (map_of (dict_by_name lower [shop_a_new, shop_b]) (str ''shop a'')) = shop_a_new"
    and "the (map_of (dict_by_name lower [shop_a_new, shop_b]) (str ''shop b'')) = shop_b"
  by (simp_all add: dict_by_name_def update_conv' shop_a_old_def shop_a_new_def shop_b_def
      normalize_name_examples[OF assms] example_distinct)

lemma example_sets:
  assumes "lower_on_ascii lower"
  shows "normalized_names lower [shop_a_new, shop_b] - normalized_names lower [shop_a_old] =
           {str ''shop b''}"
    and "normalized_names lower [shop_a_old] - normalized_names lower [shop_a_new, shop_b] = {}"
    and "normalized_names lower [shop_a_old] \<inter> normalized_names lower [shop_a_new, shop_b] =
           {str ''shop a''}"
  using example_distinct by (auto simp: example_names[OF assms])

lemma example_keys:
  assumes "set_order_ok it" "lower_on_ascii lower"
  shows "appeared_keys lower it [shop_a_old] [shop_a_new, shop_b] = [str ''shop b'']"
    and "disappeared_keys lower it [shop_a_old] [shop_a_new, shop_b] = []"
    and "remaining_keys lower it [shop_a_old] [shop_a_new, shop_b] = [str ''shop a'']"
  using assms(1)
  by (simp_all add: appeared_keys_def disappeared_keys_def remaining_keys_def
      example_sets[OF assms(2)] set_order_single set_order_empty)

lemma example_changes:
  assumes "set_order_ok it"
  shows "shop_changes it shop_a_old shop_a_new =
    [(''status'', OldNew (str ''opened'') (str ''closed'')),
     (''categories'', Categories [str ''drinks''] [] 1 2)]"
proof -
  have "{str ''food'', str ''drinks''} - {str ''food''} = {str ''drinks''}"
    "{str ''food''} - {str ''food'', str ''drinks''} = {}"
    "{str ''food''} \<noteq> {str ''food'', str ''drinks''}"
    using example_distinct by auto
  then show ?thesis
    using assms
    by (simp add: shop_changes_def shop_a_old_def shop_a_new_def set_order_single
        set_order_empty example_distinct)
qed

lemma example_report:
  assumes "set_order_ok it" "lower_on_ascii lower"
  shows "\<exists>r. analyze_changes lower it now [shop_a_old] [shop_a_new, shop_b] = Return r \<and>
      new_shops r = [shop_b] \<and> disappeared_shops r = [] \<and>
      changed_shops r =
        [\<lparr>entry_name = str ''Shop A'', entry_old_shop = shop_a_old,
          entry_new_shop = shop_a_new,
          entry_changes = [(''status'', OldNew (str ''opened'') (str ''closed'')),
                           (''categories'', Categories [str ''drinks''] [] 1 2)]\<rparr>]"
proof -
  have "changed_entry it shop_a_old shop_a_new =
    Some \<lparr>entry_name = str ''Shop A'', entry_old_shop = shop_a_old,
          entry_new_shop = shop_a_new,
          entry_changes = [(''status'', OldNew (str ''opened'') (str ''closed'')),
                           (''categories'', Categories [str ''drinks''] [] 1 2)]\<rparr>"
    by (simp add: changed_entry_def example_changes[OF assms(1)]) (simp add: shop_a_old_def)
  with analyze_changes_fields[OF assms(1), of lower now "[shop_a_old]" "[shop_a_new, shop_b]"]
  show ?thesis
    by (auto simp: example_keys[OF assms] example_stored[OF assms(2)] List.map_filter_simps)
qed

subsection \<open>Reconciliation by normalized name\<close>



subsection \<open>Duplicate names on one side\<close>

text \<open>
  Claim C5. The lookup dict of one side has one entry for each normalized name, and it
  holds the last Point of the list with that name. Only these Points are classified and
  compared: every Point of \<open>new_shops\<close> and of \<open>disappeared_shops\<close> is the last
  one with its key on its side, every changed entry pairs the last old Point with the
  last new Point of a common key and holds the changes between these two, and the
  number of changed entries is the number of common keys whose last Points differ.
\<close>

theorem C5_last_duplicate_wins:
  assumes "set_order_ok it"
  shows "distinct (map fst (dict_by_name lower shops)) \<and>
    map_of (dict_by_name lower shops) k =
      (if with_key lower k shops = [] then None else Some (last (with_key lower k shops))) \<and>
    (\<exists>r. analyze_changes lower it now old_shops new_shops_in = Return r \<and>
      (\<forall>p \<in> set (new_shops r).
          p = last (with_key lower (normalize_name lower (name p)) new_shops_in)) \<and>
      (\<forall>p \<in> set (disappeared_shops r).
          p = last (with_key lower (normalize_name lower (name p)) old_shops)) \<and>
      (\<forall>e \<in> set (changed_shops r).
          \<exists>k' \<in> normalized_names lower old_shops \<inter> normalized_names lower new_shops_in.
            entry_old_shop e = last (with_key lower k' old_shops) \<and>
            entry_new_shop e = last (with_key lower k' new_shops_in) \<and>
            entry_changes e = shop_changes it (entry_old_shop e) (entry_new_shop e)) \<and>
      length (changed_shops r) =
        card {k' \<in> normalized_names lower old_shops \<inter> normalized_names lower new_shops_in.
              shop_changes it (last (with_key lower k' old_shops))
                (last (with_key lower k' new_shops_in)) \<noteq> []})"
proof -
  from analyze_changes_fields[OF assms, of lower now old_shops new_shops_in]
  obtain r where ret: "analyze_changes lower it now old_shops new_shops_in = Return r"
    by blast
  have "\<forall>e \<in> set (changed_shops r).
          \<exists>k' \<in> normalized_names lower old_shops \<inter> normalized_names lower new_shops_in.
            entry_old_shop e = last (with_key lower k' old_shops) \<and>
            entry_new_shop e = last (with_key lower k' new_shops_in) \<and>
            entry_changes e = shop_changes it (entry_old_shop e) (entry_new_shop e)"
    using changed_shops_entries[OF assms ret] by blast
  with ret classified_points[OF assms ret] changed_count_card[OF assms ret]
  have "\<exists>r. analyze_changes lower it now old_shops new_shops_in = Return r \<and>
      (\<forall>p \<in> set (new_shops r).
          p = last (with_key lower (normalize_name lower (name p)) new_shops_in)) \<and>
      (\<forall>p \<in> set (disappeared_shops r).
          p = last (with_key lower (normalize_name lower (name p)) old_shops)) \<and>
      (\<forall>e \<in> set (changed_shops r).
          \<exists>k' \<in> normalized_names lower old_shops \<inter> normalized_names lower new_shops_in.
            entry_old_shop e = last (with_key lower k' old_shops) \<and>
            entry_new_shop e = last (with_key lower k' new_shops_in) \<and>
            entry_changes e = shop_changes it (entry_old_shop e) (entry_new_shop e)) \<and>
      length (changed_shops r) =
        card {k' \<in> normalized_names lower old_shops \<inter> normalized_names lower new_shops_in.
              shop_changes it (last (with_key lower k' old_shops))
                (last (with_key lower k' new_shops_in)) \<noteq> []}"
    by blast
  then show ?thesis
    by (simp add: distinct_dict_by_name dict_by_name_last)
qed

theorem C5_last_duplicate_wins_witness:
  "set_order_ok sorted_order \<and>
   map_of (dict_by_name sample_lower [shop_a_old, shop_b, shop_a_new]) (str ''shop a'') =
     Some shop_a_new \<and>
   (\<exists>r. analyze_changes sample_lower sorted_order (str ''2025-01-01 00:00:00'')
          [shop_a_old] [shop_a_old, shop_b, shop_a_new] = Return r \<and>
      (\<forall>p \<in> set (new_shops r).
          p = last (with_key sample_lower (normalize_name sample_lower (name p))
                      [shop_a_old, shop_b, shop_a_new])) \<and>
      (\<forall>e \<in> set (changed_shops r).
          \<exists>k' \<in> normalized_names sample_lower [shop_a_old] \<inter>
                  normalized_names sample_lower [shop_a_old, shop_b, shop_a_new].
            entry_old_shop e = last (with_key sample_lower k' [shop_a_old]) \<and>
            entry_new_shop e =
              last (with_key sample_lower k' [shop_a_old, shop_b, shop_a_new]) \<and>
            entry_changes e =
              shop_changes sorted_order (entry_old_shop e) (entry_new_shop e)))"
proof -
  note inst = C5_last_duplicate_wins[OF set_order_ok_sorted,
      of sample_lower "[shop_a_old, shop_b, shop_a_new]" "str ''shop a''"
        "str ''2025-01-01 00:00:00''" "[shop_a_old]" "[shop_a_old, shop_b, shop_a_new]"]
  have "with_key sample_lower (str ''shop a'') [shop_a_old, shop_b, shop_a_new] =
        [shop_a_old, shop_a_new]"
    by (simp add: with_key_def shop_a_old_def shop_a_new_def shop_b_def
        normalize_name_examples[OF sample_lower_on_ascii] example_distinct)
  with inst have stored:
    "map_of (dict_by_name sample_lower [shop_a_old, shop_b, shop_a_new]) (str ''shop a'') =
     Some shop_a_new"
    by simp
  from inst have "\<exists>r. analyze_changes sample_lower sorted_order (str ''2025-01-01 00:00:00'')
          [shop_a_old] [shop_a_old, shop_b, shop_a_new] = Return r \<and>
      (\<forall>p \<in> set (new_shops r).
          p = last (with_key sample_lower (normalize_name sample_lower (name p))
                      [shop_a_old, shop_b, shop_a_new])) \<and>
      (\<forall>e \<in> set (changed_shops r).
          \<exists>k' \<in> normalized_names sample_lower [shop_a_old] \<inter>
                  normalized_names sample_lower [shop_a_old, shop_b, shop_a_new].
            entry_old_shop e = last (with_key sample_lower k' [shop_a_old]) \<and>
            entry_new_shop e =
              last (with_key sample_lower k' [shop_a_old, shop_b, shop_a_new]) \<and>
            entry_changes e =
              shop_changes sorted_order (entry_old_shop e) (entry_new_shop e))"
    by blast
  with stored set_order_ok_sorted show ?thesis by blast
qed

subsection \<open>The name of a changed entry\<close>

text \<open>
  Claim C10. In every entry of \<open>changed_shops\<close> the field \<open>name\<close> is the name of
  the old Point as it was given, not normalized and not the new Point's; the old and the
  new Point of an entry are Points of the two inputs with the same normalized name, so
  where the two spellings differ in case or surrounding whitespace the old one is
  reported.
\<close>

theorem C10_changed_entry_name:
  assumes "set_order_ok it"
  shows "\<exists>r. analyze_changes lower it now old_shops new_shops_in = Return r \<and>
    (\<forall>e \<in> set (changed_shops r).
       entry_name e = name (entry_old_shop e) \<and>
       entry_old_shop e \<in> set old_shops \<and>
       entry_new_shop e \<in> set new_shops_in \<and>
       normalize_name lower (name (entry_old_shop e)) =
         normalize_name lower (name (entry_new_shop e)))"
proof -
  from analyze_changes_fields[OF assms, of lower now old_shops new_shops_in]
  obtain r where ret: "analyze_changes lower it now old_shops new_shops_in = Return r"
    by blast
  have "entry_name e = name (entry_old_shop e) \<and>
       entry_old_shop e \<in> set old_shops \<and>
       entry_new_shop e \<in> set new_shops_in \<and>
       normalize_name lower (name (entry_old_shop e)) =
         normalize_name lower (name (entry_new_shop e))"
    if "e \<in> set (changed_shops r)" for e
  proof -
    from changed_shops_entries[OF assms ret that]
    obtain k where k: "k \<in> normalized_names lower old_shops"
        "k \<in> normalized_names lower new_shops_in"
      and e: "entry_old_shop e = last (with_key lower k old_shops)"
        "entry_new_shop e = last (with_key lower k new_shops_in)"
        "entry_name e = name (entry_old_shop e)"
      by blast
    from k e show ?thesis
      by (simp add: last_with_key)
  qed
  with ret show ?thesis by blast
qed

theorem C10_changed_entry_name_witness:
  "set_order_ok sorted_order \<and>
   (\<exists>r. analyze_changes sample_lower sorted_order (str ''2025-01-01 00:00:00'')
          [shop_a_old] [shop_a_new, shop_b] = Return r \<and>
      map entry_name (changed_shops r) = [str ''Shop A''] \<and>
      map (name \<circ> entry_new_shop) (changed_shops r) = [str ''shop a''] \<and>
      (\<forall>e \<in> set (changed_shops r).
         entry_name e = name (entry_old_shop e) \<and>
         entry_old_shop e \<in> set [shop_a_old] \<and>
         entry_new_shop e \<in> set [shop_a_new, shop_b] \<and>
         normalize_name sample_lower (name (entry_old_shop e)) =
           normalize_name sample_lower (name (entry_new_shop e))))"
proof -
  from example_report[OF set_order_ok_sorted sample_lower_on_ascii,
      of "str ''2025-01-01 00:00:00''"]
  obtain r0 where r0: "analyze_changes sample_lower sorted_order (str ''2025-01-01 00:00:00'')
          [shop_a_old] [shop_a_new, shop_b] = Return r0"
    and c0: "changed_shops r0 =
        [\<lparr>entry_name = str ''Shop A'', entry_old_shop = shop_a_old,
          entry_new_shop = shop_a_new,
          entry_changes = [(''status'', OldNew (str ''opened'') (str ''closed'')),
                           (''categories'', Categories [str ''drinks''] [] 1 2)]\<rparr>]"
    by blast
  from C10_changed_entry_name[OF set_order_ok_sorted, of sample_lower
      "str ''2025-01-01 00:00:00''" "[shop_a_old]" "[shop_a_new, shop_b]"] r0 c0
    set_order_ok_sorted
  show ?thesis
    by (simp add: shop_a_new_def)
qed

subsection \<open>The order of the lists\<close>

lemma set_order_nonempty:
  "set_order_ok it \<Longrightarrow> finite S \<Longrightarrow> it place xs ys S = [] \<longleftrightarrow> S = {}"
  using set_order_okD(1)[of it S place xs ys] by auto

lemma unordered_shop_changes:
  assumes "set_order_ok it" "set_order_ok it'"
  shows "map (\<lambda>kv. (fst kv, unordered_change (snd kv))) (shop_changes it p q) =
         map (\<lambda>kv. (fst kv, unordered_change (snd kv))) (shop_changes it' p q)"
proof -
  let ?A = "set (parsed_categories q) - set (parsed_categories p)"
  let ?R = "set (parsed_categories p) - set (parsed_categories q)"
  let ?a = "\<lambda>it :: set_order. it Added (parsed_categories q) (parsed_categories p) ?A"
  let ?r = "\<lambda>it :: set_order. it Removed (parsed_categories p) (parsed_categories q) ?R"
  have sets: "set (?a it) = ?A" "set (?a it') = ?A" "set (?r it) = ?R" "set (?r it') = ?R"
    using assms by (simp_all add: set_order_okD)
  have nil: "?a it = [] \<longleftrightarrow> ?a it' = []" "?r it = [] \<longleftrightarrow> ?r it' = []"
    using assms by (simp_all add: set_order_nonempty)
  show ?thesis
  proof (cases "?a it \<noteq> [] \<or> ?r it \<noteq> []")
    case True
    with nil have "?a it' \<noteq> [] \<or> ?r it' \<noteq> []" by simp
    with True show ?thesis
      by (simp add: shop_changes_def Let_def sets)
  next
    case False
    with nil have "\<not> (?a it' \<noteq> [] \<or> ?r it' \<noteq> [])" by simp
    with False show ?thesis
      by (simp add: shop_changes_def Let_def)
  qed
qed

lemma shop_changes_empty_iff:
  assumes "set_order_ok it" "set_order_ok it'"
  shows "shop_changes it p q = [] \<longleftrightarrow> shop_changes it' p q = []"
  using unordered_shop_changes[OF assms, of p q]
  by (simp only: map_is_Nil_conv[symmetric, of _ "\<lambda>kv. (fst kv, unordered_change (snd kv))"])

lemma unordered_changed_entry:
  assumes "set_order_ok it" "set_order_ok it'"
  shows "map_option unordered_entry (changed_entry it p q) =
         map_option unordered_entry (changed_entry it' p q)"
  using unordered_shop_changes[OF assms, of p q] shop_changes_empty_iff[OF assms, of p q]
  by (simp add: changed_entry_def Let_def unordered_entry_def)

lemma mset_eq_of_same_set:
  assumes "distinct xs" "distinct ys" "set xs = set ys"
  shows "mset xs = mset ys"
  using assms by (simp add: set_eq_iff_mset_eq_distinct)

lemma mset_key_lists:
  assumes "set_order_ok it" "set_order_ok it'"
  shows "mset (appeared_keys lower it' old_shops new_shops_in) =
         mset (appeared_keys lower it old_shops new_shops_in)"
    and "mset (disappeared_keys lower it' old_shops new_shops_in) =
         mset (disappeared_keys lower it old_shops new_shops_in)"
    and "mset (remaining_keys lower it' old_shops new_shops_in) =
         mset (remaining_keys lower it old_shops new_shops_in)"
  by (rule mset_eq_of_same_set; simp add: key_lists[OF assms(1)] key_lists[OF assms(2)])+

lemma mset_map_filter:
  "mset xs = mset ys \<Longrightarrow> mset (List.map_filter h xs) = mset (List.map_filter h ys)"
  by (simp add: List.map_filter_def)

lemma map_map_filter:
  "map f (List.map_filter g xs) = List.map_filter (\<lambda>x. map_option f (g x)) xs"
  by (induction xs) (auto simp: List.map_filter_simps split: option.splits)

lemma sorted_example:
  "sorted_list_of_set {str ''shop a'', str ''shop b''} = [str ''shop a'', str ''shop b'']"
proof -
  have "sorted [str ''shop a'', str ''shop b'']" "distinct [str ''shop a'', str ''shop b'']"
    by (simp_all add: str_simps)
  then have "sorted_list_of_set (set [str ''shop a'', str ''shop b'']) =
             [str ''shop a'', str ''shop b'']"
    by (rule sorted_list_of_set.idem_if_sorted_distinct)
  then show ?thesis by simp
qed

text \<open>
  Claim C7, as stated, fails: the order of \<open>new_shops\<close> is the iteration order of a
  Python set of strings, which is not fixed by the two inputs. With the same inputs and
  the same time stamp, two iteration orders give two different reports.
\<close>

theorem C7_order_counterexample:
  "set_order_ok sorted_order \<and> set_order_ok reversed_order \<and>
   analyze_changes sample_lower sorted_order (str ''2025-01-01 00:00:00'') []
     [shop_a_new, shop_b] \<noteq>
   analyze_changes sample_lower reversed_order (str ''2025-01-01 00:00:00'') []
     [shop_a_new, shop_b]"
proof -
  note lo = sample_lower_on_ascii
  have names: "normalized_names sample_lower [shop_a_new, shop_b] -
               normalized_names sample_lower [] = {str ''shop a'', str ''shop b''}"
    by (simp add: example_names[OF lo]) (simp add: normalized_names_def)
  have k: "appeared_keys sample_lower sorted_order [] [shop_a_new, shop_b] =
           [str ''shop a'', str ''shop b'']"
    "appeared_keys sample_lower reversed_order [] [shop_a_new, shop_b] =
           [str ''shop b'', str ''shop a'']"
    by (simp_all add: appeared_keys_def names sorted_order_def reversed_order_def
        sorted_example)
  from analyze_changes_fields[OF set_order_ok_sorted, of sample_lower
      "str ''2025-01-01 00:00:00''" "[]" "[shop_a_new, shop_b]"]
  obtain r where r: "analyze_changes sample_lower sorted_order (str ''2025-01-01 00:00:00'')
      [] [shop_a_new, shop_b] = Return r"
    and nr: "new_shops r = [shop_a_new, shop_b]"
    unfolding k by (auto simp: example_stored[OF lo])
  from analyze_changes_fields[OF set_order_ok_reversed, of sample_lower
      "str ''2025-01-01 00:00:00''" "[]" "[shop_a_new, shop_b]"]
  obtain r' where r': "analyze_changes sample_lower reversed_order
      (str ''2025-01-01 00:00:00'') [] [shop_a_new, shop_b] = Return r'"
    and nr': "new_shops r' = [shop_b, shop_a_new]"
    unfolding k by (auto simp: example_stored[OF lo])
  have "shop_a_new \<noteq> shop_b"
    by (simp add: shop_a_new_def shop_b_def example_distinct)
  with nr nr' have "r \<noteq> r'" by auto
  with r r' set_order_ok_sorted set_order_ok_reversed show ?thesis by simp
qed

text \<open>
  Claim C7, amended. \<open>analyze_changes\<close> always returns, and two runs on equal inputs
  return reports that are equal except for \<open>date\<close>, which is the time of each run, and
  for the order of the lists that follow the iteration order of a Python set: the
  totals and the \<open>stats\<close> are the same, \<open>new_shops\<close> and \<open>disappeared_shops\<close> hold the
  same Points, and \<open>changed_shops\<close> holds the same entries with the same \<open>added\<close> and
  \<open>removed\<close> categories, whatever the iteration orders of the two runs are.
\<close>

theorem C7_deterministic_up_to_order:
  assumes "set_order_ok it" "set_order_ok it'"
  shows "\<exists>r r'. analyze_changes lower it now old_shops new_shops_in = Return r \<and>
      analyze_changes lower it' now' old_shops new_shops_in = Return r' \<and>
      date r = now \<and> date r' = now' \<and>
      total_before r' = total_before r \<and> total_after r' = total_after r \<and>
      stats r' = stats r \<and>
      mset (new_shops r') = mset (new_shops r) \<and>
      mset (disappeared_shops r') = mset (disappeared_shops r) \<and>
      mset (map unordered_entry (changed_shops r')) =
        mset (map unordered_entry (changed_shops r))"
proof -
  let ?O = "normalized_names lower old_shops" and ?N = "normalized_names lower new_shops_in"
  let ?g = "\<lambda>it k. changed_entry it (the (map_of (dict_by_name lower old_shops) k))
                                 (the (map_of (dict_by_name lower new_shops_in) k))"
  let ?A = "\<lambda>it. appeared_keys lower it old_shops new_shops_in"
  let ?D = "\<lambda>it. disappeared_keys lower it old_shops new_shops_in"
  let ?R = "\<lambda>it. remaining_keys lower it old_shops new_shops_in"
  note mk = mset_key_lists[OF assms, of lower old_shops new_shops_in]
  from analyze_changes_fields[OF assms(1), of lower now old_shops new_shops_in]
  obtain r where r: "analyze_changes lower it now old_shops new_shops_in = Return r"
    and f: "date r = now" "total_before r = int (length old_shops)"
      "total_after r = int (length new_shops_in)"
      "new_shops r = map (\<lambda>k. the (map_of (dict_by_name lower new_shops_in) k)) (?A it)"
      "disappeared_shops r = map (\<lambda>k. the (map_of (dict_by_name lower old_shops) k)) (?D it)"
      "changed_shops r = List.map_filter (?g it) (?R it)"
    and s: "stats_total_before (stats r) = int (length old_shops)"
      "stats_total_after (stats r) = int (length new_shops_in)"
      "new_count (stats r) = int (length (new_shops r))"
      "disappeared_count (stats r) = int (length (disappeared_shops r))"
      "changed_count (stats r) = int (length (changed_shops r))"
      "unchanged_count (stats r) = int (card (?O \<inter> ?N)) - int (length (changed_shops r))"
      "change_percentage (stats r) = py_round2 (float_mul_int
            (to_float (of_int (int (length new_shops_in) - int (length old_shops)) /
               of_int (max (int (length old_shops)) 1))) 100)"
    by blast
  from analyze_changes_fields[OF assms(2), of lower now' old_shops new_shops_in]
  obtain r' where r': "analyze_changes lower it' now' old_shops new_shops_in = Return r'"
    and f': "date r' = now'" "total_before r' = int (length old_shops)"
      "total_after r' = int (length new_shops_in)"
      "new_shops r' = map (\<lambda>k. the (map_of (dict_by_name lower new_shops_in) k)) (?A it')"
      "disappeared_shops r' = map (\<lambda>k. the (map_of (dict_by_name lower old_shops) k)) (?D it')"
      "changed_shops r' = List.map_filter (?g it') (?R it')"
    and s': "stats_total_before (stats r') = int (length old_shops)"
      "stats_total_after (stats r') = int (length new_shops_in)"
      "new_count (stats r') = int (length (new_shops r'))"
      "disappeared_count (stats r') = int (length (disappeared_shops r'))"
      "changed_count (stats r') = int (length (changed_shops r'))"
      "unchanged_count (stats r') = int (card (?O \<inter> ?N)) - int (length (changed_shops r'))"
      "change_percentage (stats r') = py_round2 (float_mul_int
            (to_float (of_int (int (length new_shops_in) - int (length old_shops)) /
               of_int (max (int (length old_shops)) 1))) 100)"
    by blast
  have new: "mset (new_shops r') = mset (new_shops r)"
    unfolding f f' using mk(1) by simp
  have dis: "mset (disappeared_shops r') = mset (disappeared_shops r)"
    unfolding f f' using mk(2) by simp
  let ?h = "\<lambda>it k. map_option unordered_entry (?g it k)"
  have "?h it' = ?h it"
    using unordered_changed_entry[OF assms(2,1)] by (simp add: fun_eq_iff)
  then have "map unordered_entry (changed_shops r') = List.map_filter (?h it) (?R it')"
    by (simp add: f' map_map_filter)
  then have "mset (map unordered_entry (changed_shops r')) =
         mset (List.map_filter (?h it) (?R it'))"
    by simp
  also have "\<dots> = mset (List.map_filter (?h it) (?R it))"
    by (rule mset_map_filter) (rule mk(3))
  also have "\<dots> = mset (map unordered_entry (changed_shops r))"
    by (simp add: f map_map_filter)
  finally have chg: "mset (map unordered_entry (changed_shops r')) =
        mset (map unordered_entry (changed_shops r))" .
  have len: "length (new_shops r') = length (new_shops r)"
    "length (disappeared_shops r') = length (disappeared_shops r)"
    "length (changed_shops r') = length (changed_shops r)"
    using new dis chg by (metis size_mset length_map)+
  have st: "stats r' = stats r"
    using s s' len by (cases "stats r", cases "stats r'") simp
  from r r' f(1,2,3) f'(1,2,3) st new dis chg show ?thesis
    by (intro exI[of _ r] exI[of _ r']) simp
qed

theorem C7_deterministic_up_to_order_witness:
  "set_order_ok sorted_order \<and> set_order_ok mixed_order \<and>
   (\<exists>r r'. analyze_changes sample_lower sorted_order (str ''2025-01-01 00:00:00'')
              [shop_a_old] [shop_a_new, shop_b] = Return r \<and>
      analyze_changes sample_lower mixed_order (str ''2025-01-02 00:00:00'')
              [shop_a_old] [shop_a_new, shop_b] = Return r' \<and>
      date r = str ''2025-01-01 00:00:00'' \<and> date r' = str ''2025-01-02 00:00:00'' \<and>
      total_before r' = total_before r \<and> total_after r' = total_after r \<and>
      stats r' = stats r \<and>
      mset (new_shops r') = mset (new_shops r) \<and>
      mset (disappeared_shops r') = mset (disappeared_shops r) \<and>
      mset (map unordered_entry (changed_shops r')) =
        mset (map unordered_entry (changed_shops r)))"
proof -
  from C7_deterministic_up_to_order[OF set_order_ok_sorted set_order_ok_mixed,
      of sample_lower "str ''2025-01-01 00:00:00''" "[shop_a_old]" "[shop_a_new, shop_b]"
         "str ''2025-01-02 00:00:00''"]
  have "\<exists>r r'. analyze_changes sample_lower sorted_order (str ''2025-01-01 00:00:00'')
              [shop_a_old] [shop_a_new, shop_b] = Return r \<and>
      analyze_changes sample_lower mixed_order (str ''2025-01-02 00:00:00'')
              [shop_a_old] [shop_a_new, shop_b] = Return r' \<and>
      date r = str ''2025-01-01 00:00:00'' \<and> date r' = str ''2025-01-02 00:00:00'' \<and>
      total_before r' = total_before r \<and> total_after r' = total_after r \<and>
      stats r' = stats r \<and>
      mset (new_shops r') = mset (new_shops r) \<and>
      mset (disappeared_shops r') = mset (disappeared_shops r) \<and>
      mset (map unordered_entry (changed_shops r')) =
        mset (map unordered_entry (changed_shops r))"
    by blast
  with set_order_ok_sorted set_order_ok_mixed show ?thesis by blast
qed

subsection \<open>The snapshot store\<close>

lemma as_strs_JStr: "as_strs (map JStr xs) = Return xs"
  by (induction xs) simp_all

lemma point_of_item_asdict: "point_of_item (asdict_point p) = Return p"
  by (simp add: point_of_item_def asdict_point_def as_strs_JStr str_simps)

lemma load_items_asdict:
  "load_items (map asdict_point shops) acc = Return (acc @ shops)"
  by (induction shops arbitrary: acc) (simp_all add: point_of_item_asdict)

lemma load_old_shops_written:
  assumes "files filename = Some (File (Json (JArr (map asdict_point shops))))"
  shows "load_old_shops DATA_FILE files (Some filename) = Return shops"
  using assms
  by (simp add: load_old_shops_def os_path_exists_def load_try_def read_json_def
      load_items_asdict)

lemma dirname_example: "os_path_dirname ''data/aviapark.json'' = ''data''"
  by code_simp

lemma of_char_less_256: "(of_char c :: nat) < 256"
proof -
  have "(of_char c :: nat) mod 256 < 256"
    by simp
  then show ?thesis
    by (simp only: of_char_mod_256)
qed

lemma encodable_str [simp]: "encodable (str cs)"
proof -
  have "(of_char c :: nat) < 0xD800" for c
    by (rule less_trans[OF of_char_less_256]) simp
  then show ?thesis
    by (simp add: encodable_def str_def list_all_iff)
qed

lemma json_strings_strs: "concat (map (json_strings \<circ> JStr) xs) = xs"
  by (induction xs) simp_all

lemma asdict_point_encodable:
  "point_encodable p \<Longrightarrow> list_all encodable (json_strings (asdict_point p))"
  by (simp add: point_encodable_def asdict_point_def json_strings_strs)

lemma snapshot_encodable:
  assumes "\<forall>p \<in> set shops. point_encodable p"
  shows "content_encodable (Json (JArr (map asdict_point shops)))"
  using assms by (induction shops) (simp_all add: content_encodable_def asdict_point_encodable)

text \<open>
  Claim C6. Where the operating system creates the directory and takes the write, and
  the strings of the Points can be written in UTF-8 (no surrogate code point in them),
  \<open>save_new_shops\<close> followed by \<open>load_old_shops\<close> on the same path returns the
  collection that was saved: the same Points in the same order, equal in all six
  fields.
\<close>

theorem C6_round_trip:
  assumes "on_makedirs os files (save_dir filename) = None"
    and "on_write os (files(save_dir filename \<mapsto> Dir)) filename = Written"
    and "\<forall>p \<in> set shops. point_encodable p"
  shows "\<exists>files'. save_new_shops os files shops filename = (files', Return ()) \<and>
           load_old_shops DATA_FILE files' (Some filename) = Return shops"
proof -
  let ?d = "save_dir filename"
  let ?c = "Json (JArr (map asdict_point shops))"
  have mk: "os_makedirs os files ?d = Return (files(?d \<mapsto> Dir))"
    using assms(1) by (simp add: os_makedirs_def)
  have wr: "write_file os (files(?d \<mapsto> Dir)) filename ?c =
            ((files(?d \<mapsto> Dir))(filename \<mapsto> File ?c), Return ())"
    using assms(2) snapshot_encodable[OF assms(3)] by (simp add: write_file_def)
  have "save_new_shops os files shops filename =
        ((files(?d \<mapsto> Dir))(filename \<mapsto> File ?c), Return ())"
    using mk wr by (simp add: save_new_shops_def)
  moreover have "load_old_shops DATA_FILE
      ((files(?d \<mapsto> Dir))(filename \<mapsto> File ?c)) (Some filename) = Return shops"
    by (rule load_old_shops_written) simp
  ultimately show ?thesis by blast
qed

theorem C6_round_trip_witness:
  "on_makedirs willing_os Map.empty (save_dir ''data/aviapark.json'') = None \<and>
   on_write willing_os (Map.empty(save_dir ''data/aviapark.json'' \<mapsto> Dir))
     ''data/aviapark.json'' = Written \<and>
   point_encodable shop_a_new \<and> point_encodable cafe_upper \<and>
   (\<exists>files'. save_new_shops willing_os Map.empty [shop_a_new, cafe_upper]
        ''data/aviapark.json'' = (files', Return ()) \<and>
      load_old_shops ''unused'' files' (Some ''data/aviapark.json'') =
        Return [shop_a_new, cafe_upper])"
proof -
  have h: "on_makedirs willing_os Map.empty (save_dir ''data/aviapark.json'') = None"
    "on_write willing_os (Map.empty(save_dir ''data/aviapark.json'' \<mapsto> Dir))
       ''data/aviapark.json'' = Written"
    by (simp_all add: willing_os_def)
  have e: "point_encodable shop_a_new" "point_encodable cafe_upper"
    by (simp_all add: point_encodable_def shop_a_new_def cafe_upper_def)
       (simp add: encodable_def)
  then have "\<forall>p \<in> set [shop_a_new, cafe_upper]. point_encodable p"
    by simp
  from C6_round_trip[OF h this, of "''unused''"] h e
  show ?thesis by blast
qed

text \<open>
  Where the write is refused, or a name holds a surrogate, the call returns all the
  same, and a load of the path does not give the collection back.
\<close>

lemma save_refused:
  assumes "on_makedirs os files (save_dir filename) = None"
    and "on_write os (files(save_dir filename \<mapsto> Dir)) filename = Refused e"
    and "files filename = None" and "filename \<noteq> save_dir filename"
  shows "\<exists>files'. save_new_shops os files shops filename = (files', Return ()) \<and>
           load_old_shops DATA_FILE files' (Some filename) = Return []"
  using assms
  by (simp add: save_new_shops_def os_makedirs_def write_file_def load_old_shops_def
      os_path_exists_def)

lemma save_unencodable:
  assumes "on_makedirs os files (save_dir filename) = None"
    and "on_write os (files(save_dir filename \<mapsto> Dir)) filename = Written"
    and "\<not> content_encodable (Json (JArr (map asdict_point shops)))"
  shows "\<exists>files'. save_new_shops os files shops filename = (files', Return ()) \<and>
           load_old_shops DATA_FILE files' (Some filename) = Return []"
  using assms
  by (simp add: save_new_shops_def os_makedirs_def write_file_def load_old_shops_def
      os_path_exists_def load_try_def read_json_def)

lemma load_old_shops_never_raises: "load_old_shops DATA_FILE files filename_arg \<noteq> Raise e"
  by (simp add: load_old_shops_def Let_def split: outcome.splits)

lemma load_old_shops_caught:
  "load_try files filename = Raise e \<Longrightarrow>
   load_old_shops DATA_FILE files (Some filename) = Return []"
  by (simp add: load_old_shops_def)

lemma dict_get_JObj:
  "dict_get (JObj kvs) k dflt = Return (case map_of kvs k of None \<Rightarrow> dflt | Some v \<Rightarrow> v)"
  by simp

lemma and_then_Return_iff:
  "and_then m f = Return y \<longleftrightarrow> (\<exists>x. m = Return x \<and> f x = Return y)"
  by (cases m) simp_all

lemma point_of_item_fields:
  assumes "point_of_item (JObj kvs) = Return p"
  shows "as_str (case map_of kvs (str ''id'') of None \<Rightarrow> JStr (str '''') | Some v \<Rightarrow> v) =
           Return (id' p)"
    and "as_str (case map_of kvs (str ''name'') of None \<Rightarrow> JStr (str '''') | Some v \<Rightarrow> v) =
           Return (name p)"
    and "as_str_list (case map_of kvs (str ''parsed_categories'') of
                        None \<Rightarrow> JArr [] | Some v \<Rightarrow> v) = Return (parsed_categories p)"
    and "as_str_list (case map_of kvs (str ''assigned_categories'') of
                        None \<Rightarrow> JArr [] | Some v \<Rightarrow> v) = Return (assigned_categories p)"
    and "as_str (case map_of kvs (str ''parsing_date'') of
                   None \<Rightarrow> JStr (str '''') | Some v \<Rightarrow> v) = Return (parsing_date p)"
    and "as_str (case map_of kvs (str ''status'') of
                   None \<Rightarrow> JStr (str ''unknown'') | Some v \<Rightarrow> v) = Return (status p)"
  using assms unfolding point_of_item_def dict_get_JObj and_then_simps and_then_Return_iff
  by auto

lemma point_of_item_defaults:
  assumes "point_of_item (JObj kvs) = Return p"
  shows "map_of kvs (str ''id'') = None \<Longrightarrow> id' p = str ''''"
    and "map_of kvs (str ''name'') = None \<Longrightarrow> name p = str ''''"
    and "map_of kvs (str ''parsed_categories'') = None \<Longrightarrow> parsed_categories p = []"
    and "map_of kvs (str ''assigned_categories'') = None \<Longrightarrow> assigned_categories p = []"
    and "map_of kvs (str ''parsing_date'') = None \<Longrightarrow> parsing_date p = str ''''"
    and "map_of kvs (str ''status'') = None \<Longrightarrow> status p = str ''unknown''"
  using point_of_item_fields[OF assms] by simp_all

lemma load_non_dict_item:
  assumes "files filename = Some (File (Json (JArr (item # items))))"
    and "\<forall>kvs. item \<noteq> JObj kvs"
  shows "load_old_shops DATA_FILE files (Some filename) = Return []"
proof -
  have "point_of_item item = Raise AttributeError"
    using assms(2) by (cases item) (simp_all add: point_of_item_def)
  then have "load_try files filename = Raise AttributeError"
    using assms(1) by (simp add: load_try_def read_json_def)
  then show ?thesis by (rule load_old_shops_caught)
qed

lemma load_not_iterable:
  assumes "files filename = Some (File (Json j))"
    and "j = JNull \<or> (\<exists>b. j = JBool b) \<or> (\<exists>n. j = JInt n) \<or> (\<exists>x. j = JFloat x)"
  shows "load_old_shops DATA_FILE files (Some filename) = Return []"
proof -
  have "iter_json j = Raise TypeError"
    using assms(2) by auto
  then have "load_try files filename = Raise TypeError"
    using assms(1) by (simp add: load_try_def read_json_def)
  then show ?thesis by (rule load_old_shops_caught)
qed

text \<open>
  Claim C9. \<open>load_old_shops\<close> returns \<open>[]\<close> for a path that does not exist, for a
  file that is not JSON, for JSON that cannot be iterated, for a list whose first item
  is not an object, and whenever the body of its \<open>try\<close> raises; it never raises
  itself. A field that a stored object lacks gets its default: \<open>''\<close> for \<open>id\<close>,
  \<open>name\<close> and \<open>parsing_date\<close>, \<open>[]\<close> for the two category lists, \<open>'unknown'\<close> for
  \<open>status\<close>.
\<close>

theorem C9_tolerant_load:
  "(files filename = None \<longrightarrow>
      load_old_shops DATA_FILE files (Some filename) = Return []) \<and>
   (files filename = Some (File NotJson) \<longrightarrow>
      load_old_shops DATA_FILE files (Some filename) = Return []) \<and>
   (files filename = Some (File (Json j)) \<and>
    (j = JNull \<or> (\<exists>b. j = JBool b) \<or> (\<exists>n. j = JInt n) \<or> (\<exists>x. j = JFloat x)) \<longrightarrow>
      load_old_shops DATA_FILE files (Some filename) = Return []) \<and>
   (files filename = Some (File (Json (JArr (item # items)))) \<and> (\<forall>kvs. item \<noteq> JObj kvs) \<longrightarrow>
      load_old_shops DATA_FILE files (Some filename) = Return []) \<and>
   (load_try files filename = Raise e \<longrightarrow>
      load_old_shops DATA_FILE files (Some filename) = Return []) \<and>
   load_old_shops DATA_FILE files filename_arg \<noteq> Raise e' \<and>
   (point_of_item (JObj kvs) = Return p \<longrightarrow>
      (map_of kvs (str ''id'') = None \<longrightarrow> id' p = str '''') \<and>
      (map_of kvs (str ''name'') = None \<longrightarrow> name p = str '''') \<and>
      (map_of kvs (str ''parsed_categories'') = None \<longrightarrow> parsed_categories p = []) \<and>
      (map_of kvs (str ''assigned_categories'') = None \<longrightarrow> assigned_categories p = []) \<and>
      (map_of kvs (str ''parsing_date'') = None \<longrightarrow> parsing_date p = str '''') \<and>
      (map_of kvs (str ''status'') = None \<longrightarrow> status p = str ''unknown'')) \<and>
   (files filename = Some (File (Json (JArr [JObj []]))) \<longrightarrow>
      load_old_shops DATA_FILE files (Some filename) =
        Return [\<lparr>id' = str '''', name = str '''', parsed_categories = [],
                 assigned_categories = [], parsing_date = str '''',
                 status = str ''unknown''\<rparr>])"
proof (intro conjI impI)
  show "load_old_shops DATA_FILE files (Some filename) = Return []" if "files filename = None"
    using that by (simp add: load_old_shops_def os_path_exists_def)
  show "load_old_shops DATA_FILE files (Some filename) = Return []"
    if "files filename = Some (File NotJson)"
  proof -
    from that have "load_try files filename = Raise JSONDecodeError"
      by (simp add: load_try_def read_json_def)
    then show ?thesis by (rule load_old_shops_caught)
  qed
  show "load_old_shops DATA_FILE files (Some filename) = Return []"
    if "files filename = Some (File (Json j)) \<and>
        (j = JNull \<or> (\<exists>b. j = JBool b) \<or> (\<exists>n. j = JInt n) \<or> (\<exists>x. j = JFloat x))"
    using that load_not_iterable by blast
  show "load_old_shops DATA_FILE files (Some filename) = Return []"
    if "files filename = Some (File (Json (JArr (item # items)))) \<and> (\<forall>kvs. item \<noteq> JObj kvs)"
    using that load_non_dict_item by blast
  show "load_old_shops DATA_FILE files (Some filename) = Return []"
    if "load_try files filename = Raise e"
    using that by (rule load_old_shops_caught)
  show "load_old_shops DATA_FILE files filename_arg \<noteq> Raise e'"
    by (rule load_old_shops_never_raises)
  show "id' p = str ''''"
    if "point_of_item (JObj kvs) = Return p" "map_of kvs (str ''id'') = None"
    using that by (rule point_of_item_defaults)
  show "name p = str ''''"
    if "point_of_item (JObj kvs) = Return p" "map_of kvs (str ''name'') = None"
    using that by (rule point_of_item_defaults)
  show "parsed_categories p = []"
    if "point_of_item (JObj kvs) = Return p" "map_of kvs (str ''parsed_categories'') = None"
    using that by (rule point_of_item_defaults)
  show "assigned_categories p = []"
    if "point_of_item (JObj kvs) = Return p" "map_of kvs (str ''assigned_categories'') = None"
    using that by (rule point_of_item_defaults)
  show "parsing_date p = str ''''"
    if "point_of_item (JObj kvs) = Return p" "map_of kvs (str ''parsing_date'') = None"
    using that by (rule point_of_item_defaults)
  show "status p = str ''unknown''"
    if "point_of_item (JObj kvs) = Return p" "map_of kvs (str ''status'') = None"
    using that by (rule point_of_item_defaults)
  show "load_old_shops DATA_FILE files (Some filename) =
        Return [\<lparr>id' = str '''', name = str '''', parsed_categories = [],
                 assigned_categories = [], parsing_date = str '''',
                 status = str ''unknown''\<rparr>]"
    if "files filename = Some (File (Json (JArr [JObj []])))"
    using that
    by (simp add: load_old_shops_def os_path_exists_def load_try_def read_json_def
        point_of_item_def)
qed

theorem C9_tolerant_load_witness:
  "load_old_shops ''data.json'' Map.empty (Some ''data/aviapark.json'') = Return [] \<and>
   load_old_shops ''data.json'' [''data/aviapark.json'' \<mapsto> File NotJson]
     (Some ''data/aviapark.json'') = Return [] \<and>
   load_old_shops ''data.json'' [''data/aviapark.json'' \<mapsto> File (Json (JInt 5))]
     (Some ''data/aviapark.json'') = Return [] \<and>
   load_old_shops ''data.json''
     [''data/aviapark.json'' \<mapsto> File (Json (JArr [JStr (str ''x'')]))]
     (Some ''data/aviapark.json'') = Return [] \<and>
   point_of_item (JObj [(str ''name'', JStr (str ''Shop A''))]) =
     Return \<lparr>id' = str '''', name = str ''Shop A'', parsed_categories = [],
             assigned_categories = [], parsing_date = str '''', status = str ''unknown''\<rparr> \<and>
   load_old_shops ''data.json'' [''data/aviapark.json'' \<mapsto> File (Json (JArr [JObj []]))]
     (Some ''data/aviapark.json'') =
     Return [\<lparr>id' = str '''', name = str '''', parsed_categories = [],
              assigned_categories = [], parsing_date = str '''', status = str ''unknown''\<rparr>]"
proof -
  note absent = C9_tolerant_load[where files = Map.empty and filename = "''data/aviapark.json''"
      and DATA_FILE = "''data.json''"]
  note garbage = C9_tolerant_load[where files = "[''data/aviapark.json'' \<mapsto> File NotJson]"
      and filename = "''data/aviapark.json''" and DATA_FILE = "''data.json''"]
  note number = C9_tolerant_load[where
      files = "[''data/aviapark.json'' \<mapsto> File (Json (JInt 5))]"
      and filename = "''data/aviapark.json''" and DATA_FILE = "''data.json''" and j = "JInt 5"]
  note non_dict = C9_tolerant_load[where
      files = "[''data/aviapark.json'' \<mapsto> File (Json (JArr [JStr (str ''x'')]))]"
      and filename = "''data/aviapark.json''" and DATA_FILE = "''data.json''"
      and item = "JStr (str ''x'')" and items = "[]"]
  note empty_obj = C9_tolerant_load[where
      files = "[''data/aviapark.json'' \<mapsto> File (Json (JArr [JObj []]))]"
      and filename = "''data/aviapark.json''" and DATA_FILE = "''data.json''"]
  have keys: "map_of [(str ''name'', JStr (str ''Shop A''))] (str ''id'') = None"
    "map_of [(str ''name'', JStr (str ''Shop A''))] (str ''parsed_categories'') = None"
    "map_of [(str ''name'', JStr (str ''Shop A''))] (str ''assigned_categories'') = None"
    "map_of [(str ''name'', JStr (str ''Shop A''))] (str ''parsing_date'') = None"
    "map_of [(str ''name'', JStr (str ''Shop A''))] (str ''status'') = None"
    "map_of [(str ''name'', JStr (str ''Shop A''))] (str ''name'') = Some (JStr (str ''Shop A''))"
    by (simp_all add: str_simps)
  obtain p where p: "point_of_item (JObj [(str ''name'', JStr (str ''Shop A''))]) = Return p"
    and nm: "name p = str ''Shop A''"
    by (simp add: point_of_item_def str_simps)
  note fields = C9_tolerant_load[where kvs = "[(str ''name'', JStr (str ''Shop A''))]"
      and p = p]
  from fields p nm keys have "p = \<lparr>id' = str '''', name = str ''Shop A'',
             parsed_categories = [], assigned_categories = [], parsing_date = str '''',
             status = str ''unknown''\<rparr>"
    by (cases p) simp
  with p have "point_of_item (JObj [(str ''name'', JStr (str ''Shop A''))]) =
     Return \<lparr>id' = str '''', name = str ''Shop A'', parsed_categories = [],
             assigned_categories = [], parsing_date = str '''', status = str ''unknown''\<rparr>"
    by simp
  moreover from absent have
    "load_old_shops ''data.json'' Map.empty (Some ''data/aviapark.json'') = Return []"
    by simp
  moreover from garbage have
    "load_old_shops ''data.json'' [''data/aviapark.json'' \<mapsto> File NotJson]
       (Some ''data/aviapark.json'') = Return []"
    by simp
  moreover from number have
    "load_old_shops ''data.json'' [''data/aviapark.json'' \<mapsto> File (Json (JInt 5))]
       (Some ''data/aviapark.json'') = Return []"
    by simp
  moreover from non_dict have
    "load_old_shops ''data.json''
       [''data/aviapark.json'' \<mapsto> File (Json (JArr [JStr (str ''x'')]))]
       (Some ''data/aviapark.json'') = Return []"
    by simp
  moreover from empty_obj have
    "load_old_shops ''data.json'' [''data/aviapark.json'' \<mapsto> File (Json (JArr [JObj []]))]
     (Some ''data/aviapark.json'') =
     Return [\<lparr>id' = str '''', name = str '''', parsed_categories = [],
              assigned_categories = [], parsing_date = str '''', status = str ''unknown''\<rparr>]"
    by simp
  ultimately show ?thesis by blast
qed

subsection \<open>One call, two iteration orders\<close>

text \<open>
  The model has runs in which one call iterates a set of names in one order and a set
  of categories with the same elements in another.
\<close>

lemma plain_names:
  "normalize_name sample_lower (str ''x'') = str ''x''"
  "normalize_name sample_lower (str ''d'') = str ''d''"
  "normalize_name sample_lower (str ''g'') = str ''g''"
  by (simp_all add: normalize_name_def py_strip_def py_isspace_def sample_lower_def
      sample_lower_char_def str_simps)

lemma plain_distinct:
  "str ''x'' \<noteq> str ''d''" "str ''x'' \<noteq> str ''g''" "str ''d'' \<noteq> str ''g''"
  "str ''d'' \<noteq> str ''x''" "str ''g'' \<noteq> str ''x''" "str ''g'' \<noteq> str ''d''"
  by (simp_all add: str_simps)

lemma sorted_plain: "sorted_list_of_set {str ''d'', str ''g''} = [str ''d'', str ''g'']"
proof -
  have "sorted [str ''d'', str ''g'']" "distinct [str ''d'', str ''g'']"
    by (simp_all add: str_simps)
  then have "sorted_list_of_set (set [str ''d'', str ''g'']) = [str ''d'', str ''g'']"
    by (rule sorted_list_of_set.idem_if_sorted_distinct)
  then show ?thesis by simp
qed

lemma one_call_two_orders:
  "\<exists>r. analyze_changes sample_lower mixed_order now
          [plain_shop (str ''x'') []]
          [plain_shop (str ''x'') [str ''d'', str ''g''], plain_shop (str ''d'') [],
           plain_shop (str ''g'') []] = Return r \<and>
        map name (new_shops r) = [str ''d'', str ''g''] \<and>
        length (changed_shops r) = 1 \<and>
        concat (map entry_changes (changed_shops r)) =
          [(''categories'', Categories [str ''g'', str ''d''] [] 0 2)]"
proof -
  let ?old = "[plain_shop (str ''x'') []]"
  let ?new = "[plain_shop (str ''x'') [str ''d'', str ''g''], plain_shop (str ''d'') [],
               plain_shop (str ''g'') []]"
  have names: "normalized_names sample_lower ?old = {str ''x''}"
    "normalized_names sample_lower ?new = {str ''x'', str ''d'', str ''g''}"
    by (simp_all add: normalized_names_def plain_shop_def plain_names)
  have sets: "normalized_names sample_lower ?new - normalized_names sample_lower ?old =
              {str ''d'', str ''g''}"
    "normalized_names sample_lower ?old \<inter> normalized_names sample_lower ?new = {str ''x''}"
    unfolding names using plain_distinct by auto
  have k: "appeared_keys sample_lower mixed_order ?old ?new = [str ''d'', str ''g'']"
    "remaining_keys sample_lower mixed_order ?old ?new = [str ''x'']"
    by (simp_all add: appeared_keys_def remaining_keys_def sets mixed_order_def sorted_plain)
  have stored: "the (map_of (dict_by_name sample_lower ?new) (str ''d'')) =
                  plain_shop (str ''d'') []"
    "the (map_of (dict_by_name sample_lower ?new) (str ''g'')) = plain_shop (str ''g'') []"
    "the (map_of (dict_by_name sample_lower ?new) (str ''x'')) =
       plain_shop (str ''x'') [str ''d'', str ''g'']"
    "the (map_of (dict_by_name sample_lower ?old) (str ''x'')) = plain_shop (str ''x'') []"
    by (simp_all add: dict_by_name_def update_conv' plain_shop_def plain_names plain_distinct)
  have "{str ''d'', str ''g''} - {} = {str ''d'', str ''g''}"
    "{} \<noteq> {str ''d'', str ''g''}" "card {str ''d'', str ''g''} = 2"
    using plain_distinct by auto
  then have chg: "shop_changes mixed_order (plain_shop (str ''x'') [])
          (plain_shop (str ''x'') [str ''d'', str ''g'']) =
        [(''categories'', Categories [str ''g'', str ''d''] [] 0 2)]"
    by (simp add: shop_changes_def plain_shop_def mixed_order_def sorted_plain)
  from analyze_changes_fields[OF set_order_ok_mixed, of sample_lower now ?old ?new]
  show ?thesis
    unfolding k by (auto simp: stored changed_entry_def chg List.map_filter_simps)
       (simp_all add: plain_shop_def)
qed

subsection \<open>A run whose fetch fails\<close>

text \<open>
  For comparison: a run whose fetch succeeds (here with no departments, on an empty
  file system, every call to the operating system performed) writes the snapshot, the
  JSON report and the rendered report.
\<close>

lemma run_after_fetch_writes:
  assumes "set_order_ok it" "encodable (report_time clk)"
  shows "\<exists>files' report.
     parse_aviapark DATA_FILE lower it willing_os clk
       (Inr (JObj [(str ''departments'', JArr [])])) Map.empty
       ''data/aviapark.json'' = (files', Return (Some report)) \<and>
     files' ''data/aviapark.json'' = Some (File (Json (JArr []))) \<and>
     files' ''reports/latest_report.json'' = Some (File (Json (asdict_report report))) \<and>
     files' ''reports/report.html'' = Some (File (Rendered (template_data_of report)))"
proof -
  from analyze_changes_fields[OF assms(1), of lower "report_time clk" "[]" "[]"]
  obtain report where r: "analyze_changes lower it (report_time clk) [] [] = Return report"
    and f: "date report = report_time clk"
      "new_shops report = map (\<lambda>k. the (map_of (dict_by_name lower []) k))
                            (appeared_keys lower it [] [])"
      "disappeared_shops report = map (\<lambda>k. the (map_of (dict_by_name lower []) k))
                            (disappeared_keys lower it [] [])"
      "changed_shops report = List.map_filter
          (\<lambda>k. changed_entry it (the (map_of (dict_by_name lower []) k))
                                 (the (map_of (dict_by_name lower []) k)))
          (remaining_keys lower it [] [])"
    by blast
  have "appeared_keys lower it [] [] = []" "disappeared_keys lower it [] [] = []"
    "remaining_keys lower it [] [] = []"
    using key_lists(1,2,3)[OF assms(1), of lower "[]" "[]"]
    by (simp_all add: normalized_names_def)
  with f have e: "new_shops report = []" "disappeared_shops report = []"
    "changed_shops report = []"
    by (simp_all add: List.map_filter_simps)
  have enc: "content_encodable (Json (asdict_report report))"
    "content_encodable (Rendered (template_data_of report))"
    using assms(2)
    by (simp_all add: content_encodable_def asdict_report_def stats_json_def
        template_data_of_def template_strings_def Let_def e f(1))
  have d: "save_dir ''data/aviapark.json'' = ''data''"
    by (simp add: save_dir_def dirname_example)
  have snap: "content_encodable (Json (JArr []))"
    by (simp add: content_encodable_def)
  show ?thesis
    by (simp add: parse_aviapark_def load_old_shops_def os_path_exists_def getitem_def
        diff_and_persist_def r save_new_shops_def d os_makedirs_def write_file_def
        save_report_to_json_def generate_html_report_def Let_def willing_os_def enc snap)
qed

text \<open>
  Claim C8. When the fetch fails, whatever the exception, both runs return \<open>None\<close>
  and leave the file system as it was: no diff is computed, and neither the snapshot
  nor a report file is written or modified.
\<close>

theorem C8_fetch_failure_writes_nothing:
  "parse_aviapark DATA_FILE lower it os clk (Inl e) files filename = (files, Return None) \<and>
   parse_riviera DATA_FILE lower it os clk (Inl e) files filename = (files, Return None)"
  by (simp add: parse_aviapark_def parse_riviera_def)

subsection \<open>Floats that are integers\<close>

lemma round_half_even_of_int: "round_half_even (of_int m) = m"
  by (simp add: round_half_even_def)

lemma pow2_nonpos: "e \<le> 0 \<Longrightarrow> pow2 e = 1 / 2 ^ nat (- e)"
  by (cases "e = 0") (simp_all add: pow2_def)

lemma to_float_exact:
  assumes "binary_exponent (of_int m) \<le> 52"
  shows "to_float (of_int m) = of_int m"
proof (cases "m = 0")
  case True
  then show ?thesis by (simp add: to_float_def)
next
  case False
  let ?e = "binary_exponent (of_int m) - 52"
  have e: "?e \<le> 0" using assms by simp
  have "(of_int m :: rat) / pow2 ?e = of_int (m * 2 ^ nat (- ?e))"
    by (simp add: pow2_nonpos[OF e])
  then have "round_half_even (of_int m / pow2 ?e) = m * 2 ^ nat (- ?e)"
    by (simp only: round_half_even_of_int)
  then have "of_int (round_half_even (of_int m / pow2 ?e)) * pow2 ?e = (of_int m :: rat)"
    by (simp add: pow2_nonpos[OF e])
  with False show ?thesis
    by (simp add: to_float_def Let_def)
qed

lemma quotient_of_abs_int: "quotient_of \<bar>of_int m :: rat\<bar> = (\<bar>m\<bar>, 1)"
  unfolding of_int_abs[symmetric] by (rule quotient_of_rat_of_int)

lemma bitlen_one: "bitlen 1 = 1"
  by (simp add: bitlen_def floorlog_def)

lemma bitlen_bound:
  assumes "\<bar>m\<bar> < (2::int) ^ 53"
  shows "bitlen \<bar>m\<bar> \<le> 53"
proof -
  have "nat \<bar>m\<bar> < nat (2 ^ 53)"
    using assms by (simp only: nat_less_eq_zless abs_ge_zero zless_nat_conj) simp
  also have "nat (2 ^ 53) = (2::nat) ^ 53"
    by (simp add: nat_power_eq)
  finally have "floorlog 2 (nat \<bar>m\<bar>) \<le> 53"
    by (intro floorlog_leI) simp_all
  then show ?thesis
    by (simp add: bitlen_def)
qed

lemma binary_exponent_int:
  assumes "\<bar>m\<bar> < (2::int) ^ 53"
  shows "binary_exponent (of_int m) \<le> 52"
proof -
  define k where "k = bitlen \<bar>m\<bar> - bitlen 1"
  have k: "k \<le> 52"
    unfolding k_def using bitlen_bound[OF assms] by (simp only: bitlen_one)
  have "binary_exponent (of_int m) = (if pow2 k \<le> \<bar>of_int m\<bar> then k else k - 1)"
    unfolding binary_exponent_def quotient_of_abs_int k_def
    by (simp only: Let_def prod.case)
  also have "\<dots> \<le> 52"
    using k by simp
  finally show ?thesis .
qed

lemma to_float_int: "\<bar>m\<bar> < (2::int) ^ 53 \<Longrightarrow> to_float (of_int m) = of_int m"
  by (rule to_float_exact) (rule binary_exponent_int)

lemma py_round2_int:
  assumes "\<bar>m\<bar> < (2::int) ^ 53"
  shows "py_round2 (of_int m) = of_int m"
proof -
  have "round_half_even (of_int m * 100) = m * 100"
    using round_half_even_of_int[of "m * 100"] by simp
  then show ?thesis
    by (simp add: py_round2_def to_float_int[OF assms])
qed

lemma percentage_from_nothing:
  assumes "100 * int n < 2 ^ 53"
  shows "py_round2 (float_mul_int (to_float (of_int (int n - 0) / of_int (max 0 1))) 100) =
         of_int (100 * int n)"
proof -
  have n: "\<bar>int n\<bar> < 2 ^ 53" "\<bar>100 * int n\<bar> < 2 ^ 53" "\<bar>100 :: int\<bar> < 2 ^ 53"
    using assms by simp_all
  have a: "to_float (of_int (int n - 0) / of_int (max 0 1)) = of_int (int n)"
    using to_float_int[OF n(1)] by simp
  have b: "float_mul_int (of_int (int n)) 100 = of_int (100 * int n)"
    using to_float_int[OF n(2)] to_float_int[OF n(3)] by (simp add: float_mul_int_def mult.commute)
  have c: "py_round2 (of_int (100 * int n)) = of_int (100 * int n)"
    by (rule py_round2_int[OF n(2)])
  show ?thesis
    by (simp only: a b c)
qed

subsection \<open>The change percentage\<close>

text \<open>
  The model of the float operations gives, for a fourth shop after three, the float that
  Python prints as \<open>33.33\<close>.
\<close>

lemma third_rounded:
  "py_round2 (float_mul_int (to_float (1 / 3)) 100) = 2345390243441541 / 70368744177664"
  by code_simp

lemma new_from_nothing:
  assumes ok: "set_order_ok it"
    and ret: "analyze_changes lower it now [] new_shops_in = Return r"
  shows "set (new_shops r) =
           (\<lambda>k. last (with_key lower k new_shops_in)) ` normalized_names lower new_shops_in"
    and "length (new_shops r) = card (normalized_names lower new_shops_in)"
    and "disappeared_shops r = []" and "changed_shops r = []"
proof -
  let ?N = "normalized_names lower new_shops_in"
  let ?A = "appeared_keys lower it [] new_shops_in"
  have e: "normalized_names lower [] = {}"
    by (simp add: normalized_names_def)
  note kl = key_lists[OF ok, of lower "[]" new_shops_in, unfolded e]
  from analyze_changes_fields[OF ok, of lower now "[]" new_shops_in] ret
  have new: "new_shops r = map (\<lambda>k. the (map_of (dict_by_name lower new_shops_in) k)) ?A"
    and dis: "disappeared_shops r = map (\<lambda>k. the (map_of (dict_by_name lower []) k))
                (disappeared_keys lower it [] new_shops_in)"
    and chg: "changed_shops r = List.map_filter
          (\<lambda>k. changed_entry it (the (map_of (dict_by_name lower []) k))
                                 (the (map_of (dict_by_name lower new_shops_in) k)))
          (remaining_keys lower it [] new_shops_in)"
    by auto
  have A: "set ?A = ?N" "length ?A = card ?N"
    using kl(1,7) by simp_all
  have nil: "disappeared_keys lower it [] new_shops_in = []"
    "remaining_keys lower it [] new_shops_in = []"
    using kl(2,3) by simp_all
  have "set (new_shops r) = (\<lambda>k. the (map_of (dict_by_name lower new_shops_in) k)) ` ?N"
    by (simp add: new A)
  also have "\<dots> = (\<lambda>k. last (with_key lower k new_shops_in)) ` ?N"
    by (rule image_cong) (simp_all add: stored_point)
  finally show "set (new_shops r) = (\<lambda>k. last (with_key lower k new_shops_in)) ` ?N" .
  show "length (new_shops r) = card ?N"
    by (simp add: new A)
  show "disappeared_shops r = []" "changed_shops r = []"
    by (simp_all add: dis chg nil List.map_filter_simps)
qed

text \<open>
  Claim C4. \<open>change_percentage\<close> is \<open>round(q * 100, 2)\<close>, where \<open>q\<close> is the float
  quotient of \<open>total_after - total_before\<close> by \<open>max(total_before, 1)\<close>, and the two
  totals are the lengths of the inputs as given, before deduplication; the division
  never raises. For an empty old input and a new input of length \<open>n\<close> the percentage
  is \<open>100 * n\<close> (for \<open>100 * n\<close> below \<open>2\<^sup>5\<^sup>3\<close>, where the floats are exact), and
  \<open>new_shops\<close> holds the Points of the new input after deduplication by name, each
  once.
\<close>

theorem C4_change_percentage:
  assumes "set_order_ok it"
  shows "\<exists>r q. analyze_changes lower it now old_shops new_shops_in = Return r \<and>
      total_before r = int (length old_shops) \<and>
      total_after r = int (length new_shops_in) \<and>
      int_truediv (total_after r - total_before r) (max (total_before r) 1) = Return q \<and>
      change_percentage (stats r) = py_round2 (float_mul_int q 100) \<and>
      (old_shops = [] \<and> 100 * int (length new_shops_in) < 2 ^ 53 \<longrightarrow>
         change_percentage (stats r) = of_int (100 * int (length new_shops_in))) \<and>
      (old_shops = [] \<longrightarrow>
         set (new_shops r) =
           (\<lambda>k. last (with_key lower k new_shops_in)) ` normalized_names lower new_shops_in \<and>
         length (new_shops r) = card (normalized_names lower new_shops_in) \<and>
         disappeared_shops r = [] \<and> changed_shops r = [])"
proof -
  let ?q = "to_float (of_int (int (length new_shops_in) - int (length old_shops)) /
               of_int (max (int (length old_shops)) 1))"
  from analyze_changes_fields[OF assms, of lower now old_shops new_shops_in]
  obtain r where ret: "analyze_changes lower it now old_shops new_shops_in = Return r"
    and tb: "total_before r = int (length old_shops)"
    and ta: "total_after r = int (length new_shops_in)"
    and cp: "change_percentage (stats r) = py_round2 (float_mul_int ?q 100)"
    by blast
  have q: "int_truediv (total_after r - total_before r) (max (total_before r) 1) = Return ?q"
    unfolding tb ta by (rule int_truediv_max)
  have exact: "change_percentage (stats r) = of_int (100 * int (length new_shops_in))"
    if "old_shops = [] \<and> 100 * int (length new_shops_in) < 2 ^ 53"
    using that percentage_from_nothing[of "length new_shops_in"] by (simp add: cp)
  have all_new: "set (new_shops r) =
           (\<lambda>k. last (with_key lower k new_shops_in)) ` normalized_names lower new_shops_in \<and>
         length (new_shops r) = card (normalized_names lower new_shops_in) \<and>
         disappeared_shops r = [] \<and> changed_shops r = []"
    if "old_shops = []"
    using new_from_nothing[OF assms, of lower now new_shops_in r] ret that by simp
  from ret tb ta q cp exact all_new show ?thesis
    by (intro exI[of _ r] exI[of _ ?q]) blast
qed

theorem C4_change_percentage_witness:
  "set_order_ok sorted_order \<and>
   (\<exists>r. analyze_changes sample_lower sorted_order (str ''2025-01-01 00:00:00'') []
          [shop_a_new, shop_b, shop_a_old] = Return r \<and>
        total_before r = 0 \<and> total_after r = 3 \<and>
        change_percentage (stats r) = 300 \<and>
        set (new_shops r) = {shop_a_old, shop_b} \<and> length (new_shops r) = 2) \<and>
   (\<exists>r. analyze_changes sample_lower sorted_order (str ''2025-01-01 00:00:00'')
          [shop_a_old, shop_b, shop_a_new] [shop_a_new, shop_b, shop_a_old, shop_b] = Return r \<and>
        total_before r = 3 \<and> total_after r = 4 \<and>
        change_percentage (stats r) = 2345390243441541 / 70368744177664)"
proof -
  note ne = normalize_name_examples[OF sample_lower_on_ascii]
  have names: "normalized_names sample_lower [shop_a_new, shop_b, shop_a_old] =
               {str ''shop a'', str ''shop b''}"
    by (auto simp: normalized_names_def shop_a_old_def shop_a_new_def shop_b_def ne)
  have stored:
    "last (with_key sample_lower (str ''shop a'') [shop_a_new, shop_b, shop_a_old]) =
     shop_a_old"
    "last (with_key sample_lower (str ''shop b'') [shop_a_new, shop_b, shop_a_old]) = shop_b"
    by (simp_all add: with_key_def shop_a_old_def shop_a_new_def shop_b_def ne
        example_distinct)
  have card: "card {str ''shop a'', str ''shop b''} = 2"
    by (simp add: example_distinct)
  from C4_change_percentage[OF set_order_ok_sorted, of sample_lower "str ''2025-01-01 00:00:00''" "[]"
      "[shop_a_new, shop_b, shop_a_old]"]
  have first: "\<exists>r. analyze_changes sample_lower sorted_order (str ''2025-01-01 00:00:00'') []
          [shop_a_new, shop_b, shop_a_old] = Return r \<and>
        total_before r = 0 \<and> total_after r = 3 \<and>
        change_percentage (stats r) = 300 \<and>
        set (new_shops r) = {shop_a_old, shop_b} \<and> length (new_shops r) = 2"
    by (auto simp: names stored card)
  from C4_change_percentage[OF set_order_ok_sorted, of sample_lower "str ''2025-01-01 00:00:00''"
      "[shop_a_old, shop_b, shop_a_new]" "[shop_a_new, shop_b, shop_a_old, shop_b]"]
  obtain r q where r: "analyze_changes sample_lower sorted_order (str ''2025-01-01 00:00:00'')
          [shop_a_old, shop_b, shop_a_new] [shop_a_new, shop_b, shop_a_old, shop_b] = Return r"
    and t: "total_before r = 3" "total_after r = 4"
    and q: "int_truediv (total_after r - total_before r) (max (total_before r) 1) = Return q"
    and cp: "change_percentage (stats r) = py_round2 (float_mul_int q 100)"
    by auto
  from q have "q = to_float (1 / 3)"
    by (simp add: t int_truediv_def)
  with cp have "change_percentage (stats r) = 2345390243441541 / 70368744177664"
    by (simp only: third_rounded)
  with r t have second: "\<exists>r. analyze_changes sample_lower sorted_order (str ''2025-01-01 00:00:00'')
          [shop_a_old, shop_b, shop_a_new] [shop_a_new, shop_b, shop_a_old, shop_b] = Return r \<and>
        total_before r = 3 \<and> total_after r = 4 \<and>
        change_percentage (stats r) = 2345390243441541 / 70368744177664"
    by blast
  from set_order_ok_sorted first second show ?thesis by blast
qed

end
